theory Spec2Isabelle
  imports Complex_Main "HOL-Library.AList"
begin

section \<open>Numbers and built-ins of the host language\<close>

text \<open>
  The program computes with double-precision floats. Where it reports times, durations and
  percentages, rounded to two decimals, the last bit of a quotient decides the value, so
  the float operations of segmentation and aggregation are a parameter of the model (the
  record \<open>float_ops\<close> below): float arithmetic is the interpreter's, not the repository's.
  The scores of the rule-based classifier are idealised as real numbers.
\<close>

datatype py_error =
  ZeroDivisionError | ValueError | IndexError | KeyError | NaNValue | LibraryError | LoadError

text \<open>\<^verbatim>\<open>int(x)\<close> on a float truncates toward zero.\<close>

definition py_int :: "real \<Rightarrow> int" where
  "py_int x = (if 0 \<le> x then \<lfloor>x\<rfloor> else \<lceil>x\<rceil>)"

text \<open>
  \<^verbatim>\<open>round(x, n)\<close> rounds to \<open>n\<close> decimals, a tie going to the even neighbour.
\<close>

definition round_half_even :: "real \<Rightarrow> int" where
  "round_half_even y =
     (let f = \<lfloor>y\<rfloor>; d = y - of_int f
      in if d < 1/2 then f else if 1/2 < d then f + 1 else if even f then f else f + 1)"

definition py_round :: "nat \<Rightarrow> real \<Rightarrow> real" where
  "py_round n x = of_int (round_half_even (x * 10 ^ n)) / 10 ^ n"

text \<open>
  The float operations: sum, difference, product and quotient of two doubles, the built-in
  \<^verbatim>\<open>round(x, n)\<close> on a double, and for the loader the conversion to single precision and
  the quotient of two singles. The instance \<open>exact_ops\<close> computes without rounding error;
  it serves for concrete inputs on which the doubles do the same.
\<close>

record float_ops =
  f_add :: "real \<Rightarrow> real \<Rightarrow> real"
  f_sub :: "real \<Rightarrow> real \<Rightarrow> real"
  f_mul :: "real \<Rightarrow> real \<Rightarrow> real"
  f_div :: "real \<Rightarrow> real \<Rightarrow> real"
  f_round :: "nat \<Rightarrow> real \<Rightarrow> real"
  to_f32 :: "real \<Rightarrow> real"
  f32_div :: "real \<Rightarrow> real \<Rightarrow> real"

definition exact_ops :: float_ops where
  "exact_ops =
     \<lparr>f_add = (\<lambda>x y. x + y), f_sub = (\<lambda>x y. x - y), f_mul = (\<lambda>x y. x * y),
      f_div = (\<lambda>x y. x / y), f_round = py_round, to_f32 = (\<lambda>x. x),
      f32_div = (\<lambda>x y. x / y)\<rparr>"

text \<open>
  An arithmetic that differs from the exact one in a single quotient: 42800 / 16000 is the
  double nearest to 2.675, which lies below it.
\<close>

definition double_tie_ops :: float_ops where
  "double_tie_ops =
     exact_ops\<lparr>f_div := (\<lambda>x y. if x = 42800 \<and> y = 16000
                                  then 3011782250804019 / 1125899906842624 else x / y)\<rparr>"

text \<open>
  \<^verbatim>\<open>max(iterable, key=f)\<close> returns the first element whose key is maximal, and raises
  \<^verbatim>\<open>ValueError\<close> on an empty iterable.
\<close>

fun max_from :: "('a \<Rightarrow> real) \<Rightarrow> 'a \<Rightarrow> 'a list \<Rightarrow> 'a" where
  "max_from key best [] = best"
| "max_from key best (y # ys) = max_from key (if key best < key y then y else best) ys"

fun py_max_key :: "('a \<Rightarrow> real) \<Rightarrow> 'a list \<Rightarrow> 'a option" where
  "py_max_key key [] = None"
| "py_max_key key (x # xs) = Some (max_from key x xs)"

text \<open>
  A \<^verbatim>\<open>dict\<close> keeps its keys in insertion order; assigning to an existing key keeps the
  key's place. This is an association list with \<^const>\<open>AList.update\<close> as assignment and
  \<^const>\<open>map_of\<close> as lookup.
\<close>

type_synonym ('k, 'v) dict = "('k \<times> 'v) list"

definition dict_get :: "('k, 'v) dict \<Rightarrow> 'k \<Rightarrow> 'v \<Rightarrow> 'v" where
  "dict_get d k dflt = (case map_of d k of None \<Rightarrow> dflt | Some v \<Rightarrow> v)"

section \<open>Aggregation (app.py)\<close>

record result =
  r_start_time :: real
  r_end_time :: real
  r_emotion :: string
  r_confidence :: real
  all_scores :: "(string, real) dict"

record change =
  timestamp :: real
  from_emotion :: string
  to_emotion :: string
  ch_confidence :: real

text \<open>
  The loop of \<^verbatim>\<open>detect_emotion_changes\<close> over \<^verbatim>\<open>range(1, len(results))\<close>, with the
  variable \<^verbatim>\<open>previous_emotion\<close> as an argument.
\<close>

fun changes_loop :: "string \<Rightarrow> result list \<Rightarrow> change list" where
  "changes_loop previous_emotion [] = []"
| "changes_loop previous_emotion (r # rs) =
     (let current_emotion = r_emotion r
      in if current_emotion \<noteq> previous_emotion
         then \<lparr>timestamp = r_start_time r, from_emotion = previous_emotion,
               to_emotion = current_emotion, ch_confidence = r_confidence r\<rparr>
              # changes_loop current_emotion rs
         else changes_loop previous_emotion rs)"

definition detect_emotion_changes :: "result list \<Rightarrow> change list" where
  "detect_emotion_changes results =
     (if length results < 2 then []
      else changes_loop (r_emotion (results ! 0)) (drop 1 results))"


text \<open>
  The specification's reading of the loop: the value of \<^verbatim>\<open>previous_emotion\<close> when
  position \<open>i\<close> is examined, the event emitted there, and the test that emits it.
\<close>

fun running_previous :: "result list \<Rightarrow> nat \<Rightarrow> string" where
  "running_previous rs 0 = r_emotion (rs ! 0)"
| "running_previous rs (Suc i) =
     (if i = 0 then r_emotion (rs ! 0)
      else if r_emotion (rs ! i) \<noteq> running_previous rs i then r_emotion (rs ! i)
      else running_previous rs i)"

definition event_at :: "result list \<Rightarrow> nat \<Rightarrow> change" where
  "event_at rs i =
     \<lparr>timestamp = r_start_time (rs ! i), from_emotion = running_previous rs i,
      to_emotion = r_emotion (rs ! i), ch_confidence = r_confidence (rs ! i)\<rparr>"

definition differs_at :: "result list \<Rightarrow> nat \<Rightarrow> bool" where
  "differs_at rs i = (r_emotion (rs ! i) \<noteq> running_previous rs i)"

text \<open>A prediction with no score table, for concrete instances.\<close>

definition mk_result :: "real \<Rightarrow> real \<Rightarrow> string \<Rightarrow> real \<Rightarrow> result" where
  "mk_result s t e c =
     \<lparr>r_start_time = s, r_end_time = t, r_emotion = e, r_confidence = c, all_scores = []\<rparr>"


record statistics =
  total_duration :: real
  emotion_counts :: "(string, int) dict"
  emotion_durations :: "(string, real) dict"
  emotion_percentages :: "(string, real) dict"
  dominant_emotion :: string

text \<open>
  The \<^verbatim>\<open>for result in results\<close> loop of \<^verbatim>\<open>calculate_statistics\<close>; its state is the
  triple \<^verbatim>\<open>(emotion_counts, emotion_durations, total_duration)\<close>. The duration is a float
  difference, and both accumulations are float sums that start from the integer 0.
\<close>

fun stats_loop ::
  "float_ops \<Rightarrow> (string, int) dict \<times> (string, real) dict \<times> real \<Rightarrow> result list
   \<Rightarrow> (string, int) dict \<times> (string, real) dict \<times> real" where
  "stats_loop fp st [] = st"
| "stats_loop fp (counts, durations, tot) (r # rs) =
     (let emotion = r_emotion r;
          duration = f_sub fp (r_end_time r) (r_start_time r)
      in stats_loop fp
           (AList.update emotion (dict_get counts emotion 0 + 1) counts,
            AList.update emotion (f_add fp (dict_get durations emotion 0) duration) durations,
            f_add fp tot duration) rs)"

text \<open>
  The dominant emotion is guarded by \<^verbatim>\<open>if emotion_durations else 'Unknown'\<close>, so \<^verbatim>\<open>max\<close>
  never sees an empty dictionary; the \<open>None\<close> branch below is that unreachable raise.
  Where the source holds the integer 0 (every percentage when the total is not positive,
  the total when there is no result), \<^verbatim>\<open>round(0, 2)\<close> is the integer 0 again and no
  float operation takes part.
\<close>

definition calculate_statistics :: "float_ops \<Rightarrow> result list \<Rightarrow> statistics" where
  "calculate_statistics fp results =
     (case stats_loop fp ([], [], 0) results of (counts, durations, tot) \<Rightarrow>
        let percentages =
              map (\<lambda>(emotion, duration).
                     (emotion, if 0 < tot then f_mul fp (f_div fp duration tot) 100 else 0))
                durations;
            dominant =
              (if durations \<noteq> []
               then (case py_max_key snd durations of Some kv \<Rightarrow> fst kv | None \<Rightarrow> ''Unknown'')
               else ''Unknown'')
        in \<lparr>total_duration = (if results = [] then 0 else f_round fp 2 tot),
            emotion_counts = counts,
            emotion_durations = map (\<lambda>(k, v). (k, f_round fp 2 v)) durations,
            emotion_percentages =
              map (\<lambda>(k, v). (k, if 0 < tot then f_round fp 2 v else 0)) percentages,
            dominant_emotion = dominant\<rparr>)"

text \<open>
  The specification's quantities: the cumulative duration of a label and the total
  duration, both summed in the order of the predictions with the program's float sum, the
  labels in the order in which they are first seen, and the first label of a list that
  maximises a measure.
\<close>

definition prediction_duration :: "float_ops \<Rightarrow> result \<Rightarrow> real" where
  "prediction_duration fp r = f_sub fp (r_end_time r) (r_start_time r)"

definition label_duration :: "float_ops \<Rightarrow> result list \<Rightarrow> string \<Rightarrow> real" where
  "label_duration fp rs e =
     foldl (f_add fp) 0 (map (prediction_duration fp) (filter (\<lambda>r. r_emotion r = e) rs))"

definition sum_duration :: "float_ops \<Rightarrow> result list \<Rightarrow> real" where
  "sum_duration fp rs = foldl (f_add fp) 0 (map (prediction_duration fp) rs)"

fun first_seen :: "'a list \<Rightarrow> 'a list" where
  "first_seen [] = []"
| "first_seen (x # xs) = x # filter (\<lambda>y. y \<noteq> x) (first_seen xs)"

definition first_argmax :: "('a \<Rightarrow> real) \<Rightarrow> 'a list \<Rightarrow> 'a \<Rightarrow> bool" where
  "first_argmax f xs x =
     (\<exists>i < length xs. xs ! i = x \<and> (\<forall>j < length xs. f (xs ! j) \<le> f x) \<and> (\<forall>j < i. f (xs ! j) < f x))"

text \<open>Four predictions that cover happy for 6 s, sad for 3 s and neutral for 1 s.\<close>

definition stats_example_input :: "result list" where
  "stats_example_input =
     [mk_result 0 3 ''happy'' 0.9, mk_result 3 6 ''happy'' 0.8,
      mk_result 6 9 ''sad'' 0.7, mk_result 9 10 ''neutral'' 0.6]"

section \<open>Segmentation (audio_processing/preprocess.py)\<close>

record chunk =
  audio_data :: "real list"
  sample_rate :: int
  start_time :: real
  end_time :: real
  duration :: real

text \<open>
  A slice \<^verbatim>\<open>xs[a:b]\<close>: a negative bound counts from the end, and both bounds are clipped
  to the length.
\<close>

definition slice_index :: "int \<Rightarrow> int \<Rightarrow> nat" where
  "slice_index n i = nat (if i < 0 then max (i + n) 0 else min i n)"

definition py_slice :: "'a list \<Rightarrow> int \<Rightarrow> int \<Rightarrow> 'a list" where
  "py_slice xs a b =
     (let n = int (length xs); lo = slice_index n a; hi = slice_index n b
      in take (hi - lo) (drop lo xs))"

text \<open>
  The body of the \<^verbatim>\<open>while\<close> loop of \<^verbatim>\<open>_split_into_chunks\<close> at one position: the chunk
  it appends and the next position. The two true divisions by \<^verbatim>\<open>sample_rate\<close> raise
  \<^verbatim>\<open>ZeroDivisionError\<close> when the rate is zero; otherwise they are float quotients of the
  two integers.
\<close>

definition chunk_body ::
  "float_ops \<Rightarrow> int \<Rightarrow> int \<Rightarrow> real list \<Rightarrow> int \<Rightarrow> py_error + (chunk \<times> int)" where
  "chunk_body fp chunk_samples sr audio current_position =
     (let total_samples = int (length audio);
          start_sample = current_position;
          end_sample = min (current_position + chunk_samples) total_samples;
          sliced = py_slice audio start_sample end_sample;
          chunk_audio =
            (if int (length sliced) < chunk_samples
             then sliced @ replicate (nat (chunk_samples - int (length sliced))) 0
             else sliced)
      in if sr = 0 then Inl ZeroDivisionError
         else
           let start_t = f_div fp (of_int start_sample) (of_int sr);
               end_t = f_div fp (of_int end_sample) (of_int sr)
           in Inr (\<lparr>audio_data = chunk_audio, sample_rate = sr,
                     start_time = f_round fp 2 start_t, end_time = f_round fp 2 end_t,
                     duration = f_round fp 2 (f_sub fp end_t start_t)\<rparr>,
                   end_sample))"

text \<open>
  The loop itself. It need not terminate, so it is a partial function: \<open>None\<close> is the
  run that never returns, \<open>Some (Inl e)\<close> a raise, \<open>Some (Inr chunks)\<close> the returned list.
\<close>

partial_function (option) split_loop ::
  "float_ops \<Rightarrow> int \<Rightarrow> int \<Rightarrow> real list \<Rightarrow> int \<Rightarrow> chunk list
   \<Rightarrow> (py_error + chunk list) option" where
  "split_loop fp chunk_samples sr audio current_position chunks =
     (if current_position < int (length audio)
      then (case chunk_body fp chunk_samples sr audio current_position of
              Inl e \<Rightarrow> Some (Inl e)
            | Inr (c, next_position) \<Rightarrow>
                split_loop fp chunk_samples sr audio next_position (chunks @ [c]))
      else Some (Inr chunks))"

text \<open>
  \<^verbatim>\<open>chunk_samples = int(self.chunk_duration * sample_rate)\<close>: the float product,
  truncated.
\<close>

definition split_into_chunks ::
  "float_ops \<Rightarrow> real \<Rightarrow> int \<Rightarrow> real list \<Rightarrow> (py_error + chunk list) option" where
  "split_into_chunks fp chunk_duration sr audio =
     split_loop fp (py_int (f_mul fp chunk_duration (of_int sr))) sr audio 0 []"

text \<open>
  Functions of librosa, of pydub and of the transformer stack are not code of the
  repository. They are parameters: the resampler, the per-frame zero-crossing rates, and
  the pitch tracker. The tracker returns two arrays of one shape (bins by frames); they
  are kept as the list of frames, each frame the list over its bins of the pair
  (pitch, magnitude).
\<close>

record librosa =
  lib_resample :: "real list \<Rightarrow> int \<Rightarrow> int \<Rightarrow> py_error + real list"
  lib_zcr :: "real list \<Rightarrow> py_error + real list"
  lib_piptrack :: "real list \<Rightarrow> int \<Rightarrow> py_error + (real \<times> real) list list"

text \<open>
  What the two decoders make of the uploaded file: the outcome of
  \<^verbatim>\<open>librosa.load(path, sr=None, mono=True)\<close>, samples and rate, and the outcome of pydub,
  the integer samples of the segment brought to one channel and its frame rate.
\<close>

record decoders =
  librosa_load :: "py_error + (real list \<times> int)"
  pydub_load :: "py_error + (real list \<times> int)"

text \<open>
  \<^verbatim>\<open>_load_audio\<close>. When librosa raises, pydub is tried; its samples are converted to single
  precision and divided by their greatest absolute value. \<^verbatim>\<open>np.max\<close> of an empty array
  raises, and every raise on this branch is raised again as the failure to load. The
  absolute values are not negative, so their maximum is the fold of \<open>max\<close> from 0. When
  all samples are zero, numpy divides 0 by 0 and yields \<^verbatim>\<open>nan\<close> without a raise; the
  reals have no such value, and the case is kept apart as \<^const>\<open>NaNValue\<close>.
\<close>

definition load_audio :: "float_ops \<Rightarrow> decoders \<Rightarrow> py_error + (real list \<times> int)" where
  "load_audio fp dec =
     (case librosa_load dec of
        Inr (audio, sr) \<Rightarrow> Inr (audio, sr)
      | Inl e \<Rightarrow>
          (case pydub_load dec of
             Inl e2 \<Rightarrow> Inl LoadError
           | Inr (samples, sr) \<Rightarrow>
               let audio = map (to_f32 fp) samples
               in if audio = [] then Inl LoadError
                  else
                    let peak = foldl max 0 (map abs audio)
                    in if peak = 0 then Inl NaNValue
                       else Inr (map (\<lambda>x. f32_div fp x peak) audio, sr)))"

text \<open>
  \<^verbatim>\<open>process_audio\<close>: load, resample when the rate of the file is not the target rate,
  split.
\<close>

definition process_audio ::
  "float_ops \<Rightarrow> real \<Rightarrow> int \<Rightarrow> librosa \<Rightarrow> decoders \<Rightarrow> (py_error + chunk list) option" where
  "process_audio fp chunk_duration sr lib dec =
     (case load_audio fp dec of
        Inl e \<Rightarrow> Some (Inl e)
      | Inr (audio, original_sr) \<Rightarrow>
          if original_sr \<noteq> sr
          then (case lib_resample lib audio original_sr sr of
                  Inl e \<Rightarrow> Some (Inl e)
                | Inr resampled \<Rightarrow> split_into_chunks fp chunk_duration sr resampled)
          else split_into_chunks fp chunk_duration sr audio)"

text \<open>
  The specification's windows: window \<open>i\<close> of \<open>n\<close> samples starts at sample \<open>i * n\<close>, ends
  at the next multiple of \<open>n\<close> or at the end of the audio, is padded with zeros to \<open>n\<close>
  samples, and reports its bounds in seconds: the float quotient of the sample index and
  the rate, rounded to two decimals by \<^verbatim>\<open>round\<close>. The number of windows is the total
  length divided by \<open>n\<close>, rounded up.
\<close>

definition window_end :: "nat \<Rightarrow> real list \<Rightarrow> nat \<Rightarrow> nat" where
  "window_end n audio i = min (i * n + n) (length audio)"

definition reported_time :: "float_ops \<Rightarrow> int \<Rightarrow> nat \<Rightarrow> real" where
  "reported_time fp sr k = f_round fp 2 (f_div fp (real k) (of_int sr))"

definition window_chunk :: "float_ops \<Rightarrow> nat \<Rightarrow> int \<Rightarrow> real list \<Rightarrow> nat \<Rightarrow> chunk" where
  "window_chunk fp n sr audio i =
     (let samples = take (window_end n audio i - i * n) (drop (i * n) audio)
      in \<lparr>audio_data = samples @ replicate (n - length samples) 0,
          sample_rate = sr,
          start_time = reported_time fp sr (i * n),
          end_time = reported_time fp sr (window_end n audio i),
          duration = f_round fp 2 (f_sub fp (f_div fp (real (window_end n audio i)) (of_int sr))
                                            (f_div fp (real (i * n)) (of_int sr)))\<rparr>)"

definition window_count :: "nat \<Rightarrow> real list \<Rightarrow> nat" where
  "window_count n audio = (length audio + n - 1) div n"

section \<open>The analysis route (app.py)\<close>

record emotion_data =
  emotion :: string
  confidence :: real
  scores :: "(string, real) dict"

text \<open>
  The \<^verbatim>\<open>for chunk in chunks\<close> loop of \<^verbatim>\<open>analyze_audio\<close>, with the classifier as a
  parameter; a raise of the classifier leaves the loop.
\<close>

fun predict_chunks ::
  "(real list \<Rightarrow> int \<Rightarrow> py_error + emotion_data) \<Rightarrow> chunk list \<Rightarrow> py_error + result list" where
  "predict_chunks predict [] = Inr []"
| "predict_chunks predict (c # cs) =
     (case predict (audio_data c) (sample_rate c) of
        Inl e \<Rightarrow> Inl e
      | Inr ed \<Rightarrow>
          (case predict_chunks predict cs of
             Inl e \<Rightarrow> Inl e
           | Inr rs \<Rightarrow>
               Inr (\<lparr>r_start_time = start_time c, r_end_time = end_time c,
                      r_emotion = emotion ed, r_confidence = confidence ed,
                      all_scores = scores ed\<rparr> # rs)))"

record analysis =
  results :: "result list"
  emotion_changes :: "change list"
  stats :: statistics

text \<open>
  The route after the upload is stored: chunks, predictions, changes, statistics. Any
  exception ends in the route's \<^verbatim>\<open>except\<close> clause, the error answer \<open>Inl e\<close>.
\<close>

definition analyze_audio ::
  "float_ops \<Rightarrow> real \<Rightarrow> int \<Rightarrow> librosa \<Rightarrow> decoders
   \<Rightarrow> (real list \<Rightarrow> int \<Rightarrow> py_error + emotion_data) \<Rightarrow> (py_error + analysis) option" where
  "analyze_audio fp chunk_duration sr lib dec predict =
     (case process_audio fp chunk_duration sr lib dec of
        None \<Rightarrow> None
      | Some (Inl e) \<Rightarrow> Some (Inl e)
      | Some (Inr chunks) \<Rightarrow>
          (case predict_chunks predict chunks of
             Inl e \<Rightarrow> Some (Inl e)
           | Inr rs \<Rightarrow>
               Some (Inr \<lparr>results = rs, emotion_changes = detect_emotion_changes rs,
                          stats = calculate_statistics fp rs\<rparr>)))"

section \<open>Classification (emotion_model/model.py)\<close>

record features =
  energy :: real
  zero_crossing_rate :: real
  pitch_mean :: real
  pitch_std :: real

definition fallback_emotions :: "string list" where
  "fallback_emotions = [''neutral'', ''happy'', ''sad'', ''angry'', ''fearful'', ''surprised'']"

definition model_emotions :: "string list" where
  "model_emotions =
     [''angry'', ''calm'', ''disgust'', ''fearful'', ''happy'', ''neutral'', ''sad'', ''surprised'']"

text \<open>A dictionary built from pairs in order, a later pair overwriting an equal key.\<close>

definition dict_of :: "('k \<times> 'v) list \<Rightarrow> ('k, 'v) dict" where
  "dict_of kvs = fold (\<lambda>(k, v) d. AList.update k v d) kvs []"

definition np_mean :: "real list \<Rightarrow> real" where
  "np_mean xs = sum_list xs / real (length xs)"

definition np_std :: "real list \<Rightarrow> real" where
  "np_std xs = sqrt (sum_list (map (\<lambda>x. (x - np_mean xs)\<^sup>2) xs) / real (length xs))"

text \<open>
  \<^verbatim>\<open>np.argmax\<close>: the first index of a maximal entry; it raises on an empty array.
\<close>

definition np_argmax :: "real list \<Rightarrow> nat option" where
  "np_argmax xs = map_option fst (py_max_key snd (zip [0..<length xs] xs))"

text \<open>
  The loop over the frames in \<^verbatim>\<open>_extract_features\<close>: the pitch at the bin of greatest
  magnitude is kept when it is positive.
\<close>

fun pitch_values :: "(real \<times> real) list list \<Rightarrow> py_error + real list" where
  "pitch_values [] = Inr []"
| "pitch_values (frame # frames) =
     (case py_max_key snd frame of
        None \<Rightarrow> Inl ValueError
      | Some (pitch, magnitude) \<Rightarrow>
          (case pitch_values frames of
             Inl e \<Rightarrow> Inl e
           | Inr vs \<Rightarrow> Inr (if 0 < pitch then pitch # vs else vs)))"

text \<open>
  \<^verbatim>\<open>_extract_features\<close>. The pitch part stands in a \<^verbatim>\<open>try\<close> whose bare \<^verbatim>\<open>except\<close> sets
  both pitch statistics to 0; the energy and the zero-crossing rate stand outside of it.
  For an empty array numpy yields \<^verbatim>\<open>nan\<close> where a mean is taken; the reals have no such
  value, and the case is kept apart as \<^const>\<open>NaNValue\<close>.
\<close>

definition extract_features :: "librosa \<Rightarrow> real list \<Rightarrow> int \<Rightarrow> py_error + features" where
  "extract_features lib audio sr =
     (if audio = [] then Inl NaNValue
      else
        let e = sum_list (map (\<lambda>x. x\<^sup>2) audio) / real (length audio)
        in case lib_zcr lib audio of
             Inl err \<Rightarrow> Inl err
           | Inr frames \<Rightarrow>
               if frames = [] then Inl NaNValue
               else
                 let zcr = np_mean frames;
                     pitch =
                       (case lib_piptrack lib audio sr of
                          Inl err \<Rightarrow> (0, 0)
                        | Inr tracked \<Rightarrow>
                            (case pitch_values tracked of
                               Inl err \<Rightarrow> (0, 0)
                             | Inr vs \<Rightarrow>
                                 (if vs \<noteq> [] then np_mean vs else 0,
                                  if vs \<noteq> [] then np_std vs else 0)))
                 in Inr \<lparr>energy = e, zero_crossing_rate = zcr,
                          pitch_mean = fst pitch, pitch_std = snd pitch\<rparr>)"

text \<open>
  The rule-based part of \<^verbatim>\<open>_predict_with_features\<close> in its three steps: the scores set
  by the threshold cascade, the normalisation with its guard, and the choice of the label.
\<close>

definition init_scores :: "string list \<Rightarrow> (string, real) dict" where
  "init_scores ems = dict_of (map (\<lambda>e. (e, 0)) ems)"

definition rule_scores :: "string list \<Rightarrow> features \<Rightarrow> (string, real) dict" where
  "rule_scores ems f =
     (let sc = init_scores ems
      in if 1 / 2 < energy f
         then if 50 < pitch_std f
              then AList.update ''surprised'' (3 / 10) (AList.update ''angry'' (4 / 10) sc)
              else AList.update ''happy'' (5 / 10) sc
         else if energy f < 2 / 10
         then if pitch_mean f < 150
              then AList.update ''sad'' (6 / 10) sc
              else AList.update ''neutral'' (5 / 10) sc
         else AList.update ''neutral'' (4 / 10)
                (if 1 / 10 < zero_crossing_rate f
                 then AList.update ''fearful'' (4 / 10) sc else sc))"

definition normalize_scores :: "(string, real) dict \<Rightarrow> (string, real) dict" where
  "normalize_scores sc =
     (let tot = sum_list (map snd sc)
      in if 0 < tot then map (\<lambda>(k, v). (k, v / tot)) sc
         else AList.update ''neutral'' 1 sc)"

definition classify_features :: "string list \<Rightarrow> features \<Rightarrow> py_error + emotion_data" where
  "classify_features ems f =
     (let sc = normalize_scores (rule_scores ems f)
      in case py_max_key snd sc of
           None \<Rightarrow> Inl ValueError
         | Some kv \<Rightarrow>
             (case map_of sc (fst kv) of
                None \<Rightarrow> Inl KeyError
              | Some c \<Rightarrow>
                  Inr \<lparr>emotion = fst kv, confidence = py_round 4 c, scores = sc\<rparr>))"

definition predict_with_features ::
  "string list \<Rightarrow> librosa \<Rightarrow> real list \<Rightarrow> int \<Rightarrow> py_error + emotion_data" where
  "predict_with_features ems lib audio sr =
     (case extract_features lib audio sr of
        Inl err \<Rightarrow> Inl err
      | Inr f \<Rightarrow> classify_features ems f)"

text \<open>
  \<^verbatim>\<open>_predict_with_model\<close>. The feature extractor, the network and the softmax are one
  parameter \<open>infer\<close> that returns the probabilities or raises. Every raise inside the
  \<^verbatim>\<open>try\<close> goes to the rule-based path, with the audio and the rate as they are at that
  moment.
\<close>

definition predict_with_model ::
  "string list \<Rightarrow> librosa \<Rightarrow> (real list \<Rightarrow> int \<Rightarrow> py_error + real list)
   \<Rightarrow> real list \<Rightarrow> int \<Rightarrow> py_error + emotion_data" where
  "predict_with_model ems lib infer audio sr =
     (case (if sr \<noteq> 16000
            then (case lib_resample lib audio sr 16000 of
                    Inl err \<Rightarrow> Inl (audio, sr)
                  | Inr resampled \<Rightarrow> Inr (resampled, 16000))
            else Inr (audio, sr)) of
        Inl (a, s) \<Rightarrow> predict_with_features ems lib a s
      | Inr (a, s) \<Rightarrow>
          (case infer a s of
             Inl err \<Rightarrow> predict_with_features ems lib a s
           | Inr probabilities \<Rightarrow>
               (case np_argmax probabilities of
                  None \<Rightarrow> predict_with_features ems lib a s
                | Some predicted_idx \<Rightarrow>
                    if predicted_idx < length ems
                    then Inr \<lparr>emotion = ems ! predicted_idx,
                              confidence = py_round 4 (probabilities ! predicted_idx),
                              scores = dict_of (zip ems probabilities)\<rparr>
                    else predict_with_features ems lib a s)))"

text \<open>
  The detector: \<^verbatim>\<open>__init__\<close> keeps the model and its eight labels when loading
  succeeds, and no model and the six fallback labels otherwise.
\<close>

record detector =
  model :: "(real list \<Rightarrow> int \<Rightarrow> py_error + real list) option"
  emotions :: "string list"

definition init_detector ::
  "py_error + (real list \<Rightarrow> int \<Rightarrow> py_error + real list) \<Rightarrow> detector" where
  "init_detector loaded =
     (case loaded of
        Inr infer \<Rightarrow> \<lparr>model = Some infer, emotions = model_emotions\<rparr>
      | Inl err \<Rightarrow> \<lparr>model = None, emotions = fallback_emotions\<rparr>)"

definition predict_emotion ::
  "detector \<Rightarrow> librosa \<Rightarrow> real list \<Rightarrow> int \<Rightarrow> py_error + emotion_data" where
  "predict_emotion det lib audio sr =
     (case model det of
        Some infer \<Rightarrow> predict_with_model (emotions det) lib infer audio sr
      | None \<Rightarrow> predict_with_features (emotions det) lib audio sr)"

text \<open>
  The decision table of the specification, read top to bottom: the unnormalised score of
  a label for a feature vector.
\<close>

definition table_scores :: "features \<Rightarrow> string \<Rightarrow> real" where
  "table_scores f l =
     (if 1 / 2 < energy f \<and> 50 < pitch_std f
        then (if l = ''angry'' then 4 / 10 else if l = ''surprised'' then 3 / 10 else 0)
      else if 1 / 2 < energy f \<and> pitch_std f \<le> 50
        then (if l = ''happy'' then 5 / 10 else 0)
      else if energy f < 2 / 10 \<and> pitch_mean f < 150
        then (if l = ''sad'' then 6 / 10 else 0)
      else if energy f < 2 / 10 \<and> 150 \<le> pitch_mean f
        then (if l = ''neutral'' then 5 / 10 else 0)
      else if 1 / 10 < zero_crossing_rate f
        then (if l = ''fearful'' then 4 / 10 else if l = ''neutral'' then 4 / 10 else 0)
      else (if l = ''neutral'' then 4 / 10 else 0))"

definition table_sum :: "features \<Rightarrow> real" where
  "table_sum f = sum_list (map (table_scores f) fallback_emotions)"

text \<open>The feature vector of silence, and a library that hears nothing in silence.\<close>

definition zero_features :: features where
  "zero_features = \<lparr>energy = 0, zero_crossing_rate = 0, pitch_mean = 0, pitch_std = 0\<rparr>"

definition quiet_lib :: librosa where
  "quiet_lib =
     \<lparr>lib_resample = (\<lambda>a from to. Inr a),
      lib_zcr = (\<lambda>a. Inr [0]),
      lib_piptrack = (\<lambda>a sr. Inr [[(0, 0), (0, 0)]])\<rparr>"

text \<open>The feature vector of the specification's example.\<close>

definition angry_features :: features where
  "angry_features =
     \<lparr>energy = 6 / 10, zero_crossing_rate = 5 / 100, pitch_mean = 100, pitch_std = 60\<rparr>"

text \<open>
  The specification's contract of a prediction, over the label order \<open>ems\<close> of the
  detector: the label is the first arg-max of the scores, the scores are keyed by the
  labels in their order, and the confidence is the score of the label, rounded to four
  decimals.
\<close>

definition argmax_prediction :: "string list \<Rightarrow> emotion_data \<Rightarrow> bool" where
  "argmax_prediction ems p =
     (\<exists>c. first_argmax snd (scores p) (emotion p, c)
        \<and> map_of (scores p) (emotion p) = Some c
        \<and> confidence p = py_round 4 c
        \<and> map fst (scores p) = take (length (scores p)) ems)"

text \<open>
  A library that reports a zero-crossing rate of 0.2 and fails to track pitch, a model
  that raises at inference, and a model that returns eight probabilities.
\<close>

definition noisy_lib :: librosa where
  "noisy_lib =
     \<lparr>lib_resample = (\<lambda>a from to. Inr a),
      lib_zcr = (\<lambda>a. Inr [1 / 5]),
      lib_piptrack = (\<lambda>a sr. Inl LibraryError)\<rparr>"

definition failing_model :: "real list \<Rightarrow> int \<Rightarrow> py_error + real list" where
  "failing_model a s = Inl LibraryError"

definition sample_model :: "real list \<Rightarrow> int \<Rightarrow> py_error + real list" where
  "sample_model a s = Inr [1 / 20, 1 / 20, 3 / 5, 1 / 20, 1 / 20, 1 / 10, 1 / 20, 1 / 20]"

text \<open>
  Decoder outcomes for a file without samples: read by librosa at a given rate, or refused
  by librosa and read by pydub; and a library whose resampler refuses the empty waveform.
\<close>

definition empty_by_librosa :: "int \<Rightarrow> decoders" where
  "empty_by_librosa rate = \<lparr>librosa_load = Inr ([], rate), pydub_load = Inl LibraryError\<rparr>"

definition empty_by_pydub :: "int \<Rightarrow> decoders" where
  "empty_by_pydub rate = \<lparr>librosa_load = Inl LibraryError, pydub_load = Inr ([], rate)\<rparr>"

definition strict_lib :: librosa where
  "strict_lib =
     \<lparr>lib_resample = (\<lambda>a from to. if a = [] then Inl ValueError else Inr a),
      lib_zcr = (\<lambda>a. Inr [0]),
      lib_piptrack = (\<lambda>a sr. Inl LibraryError)\<rparr>"

definition failing_classifier :: "real list \<Rightarrow> int \<Rightarrow> py_error + emotion_data" where
  "failing_classifier a s = Inl LibraryError"

section \<open>Verification\<close>

subsection \<open>The first maximal element\<close>

lemma max_from_cases:
  "(max_from key b ys = b \<and> (\<forall>y \<in> set ys. key y \<le> key b))
   \<or> (\<exists>i < length ys. max_from key b ys = ys ! i \<and> key b < key (ys ! i)
        \<and> (\<forall>j < length ys. key (ys ! j) \<le> key (ys ! i))
        \<and> (\<forall>j < i. key (ys ! j) < key (ys ! i)))"
proof (induction ys arbitrary: b)
  case Nil
  show ?case by simp
next
  case (Cons y ys)
  show ?case
  proof (cases "key b < key y")
    case True
    from Cons.IH[of y] show ?thesis
    proof
      assume h: "max_from key y ys = y \<and> (\<forall>z \<in> set ys. key z \<le> key y)"
      have "\<forall>j < length (y # ys). key ((y # ys) ! j) \<le> key y"
        using h by (auto simp: nth_Cons')
      with h True show ?thesis
        by (intro disjI2 exI[of _ 0]) simp
    next
      assume "\<exists>i < length ys. max_from key y ys = ys ! i \<and> key y < key (ys ! i)
        \<and> (\<forall>j < length ys. key (ys ! j) \<le> key (ys ! i))
        \<and> (\<forall>j < i. key (ys ! j) < key (ys ! i))"
      then obtain i where i: "i < length ys" "max_from key y ys = ys ! i" "key y < key (ys ! i)"
        "\<forall>j < length ys. key (ys ! j) \<le> key (ys ! i)" "\<forall>j < i. key (ys ! j) < key (ys ! i)"
        by blast
      have a: "\<forall>j < length (y # ys). key ((y # ys) ! j) \<le> key (ys ! i)"
        using i by (auto simp: nth_Cons' less_Suc_eq_0_disj)
      have b: "\<forall>j < Suc i. key ((y # ys) ! j) < key (ys ! i)"
        using i by (auto simp: nth_Cons' less_Suc_eq_0_disj)
      from i a b True show ?thesis
        by (intro disjI2 exI[of _ "Suc i"]) auto
    qed
  next
    case False
    from Cons.IH[of b] show ?thesis
    proof
      assume "max_from key b ys = b \<and> (\<forall>z \<in> set ys. key z \<le> key b)"
      with False show ?thesis by auto
    next
      assume "\<exists>i < length ys. max_from key b ys = ys ! i \<and> key b < key (ys ! i)
        \<and> (\<forall>j < length ys. key (ys ! j) \<le> key (ys ! i))
        \<and> (\<forall>j < i. key (ys ! j) < key (ys ! i))"
      then obtain i where i: "i < length ys" "max_from key b ys = ys ! i" "key b < key (ys ! i)"
        "\<forall>j < length ys. key (ys ! j) \<le> key (ys ! i)" "\<forall>j < i. key (ys ! j) < key (ys ! i)"
        by blast
      have a: "\<forall>j < length (y # ys). key ((y # ys) ! j) \<le> key (ys ! i)"
        using i False by (auto simp: nth_Cons' less_Suc_eq_0_disj)
      have b: "\<forall>j < Suc i. key ((y # ys) ! j) < key (ys ! i)"
        using i False by (auto simp: nth_Cons' less_Suc_eq_0_disj)
      from i a b False show ?thesis
        by (intro disjI2 exI[of _ "Suc i"]) auto
    qed
  qed
qed

lemma py_max_key_first_argmax:
  assumes "py_max_key key xs = Some x"
  shows "first_argmax key xs x"
proof (cases xs)
  case Nil
  with assms show ?thesis by simp
next
  case (Cons b ys)
  with assms have x: "x = max_from key b ys" by simp
  from max_from_cases[of key b ys] show ?thesis
  proof
    assume h: "max_from key b ys = b \<and> (\<forall>y \<in> set ys. key y \<le> key b)"
    then have "\<forall>j < length (b # ys). key ((b # ys) ! j) \<le> key b"
      by (auto simp: nth_Cons')
    with h x Cons show ?thesis
      unfolding first_argmax_def by (intro exI[of _ 0]) simp
  next
    assume "\<exists>i < length ys. max_from key b ys = ys ! i \<and> key b < key (ys ! i)
        \<and> (\<forall>j < length ys. key (ys ! j) \<le> key (ys ! i))
        \<and> (\<forall>j < i. key (ys ! j) < key (ys ! i))"
    then obtain i where i: "i < length ys" "max_from key b ys = ys ! i" "key b < key (ys ! i)"
        "\<forall>j < length ys. key (ys ! j) \<le> key (ys ! i)" "\<forall>j < i. key (ys ! j) < key (ys ! i)"
      by blast
    have a: "\<forall>j < length (b # ys). key ((b # ys) ! j) \<le> key (ys ! i)"
      using i by (auto simp: nth_Cons' less_Suc_eq_0_disj)
    have b: "\<forall>j < Suc i. key ((b # ys) ! j) < key (ys ! i)"
      using i by (auto simp: nth_Cons' less_Suc_eq_0_disj)
    from i a b x Cons show ?thesis
      unfolding first_argmax_def by (intro exI[of _ "Suc i"]) auto
  qed
qed

subsection \<open>Change detection\<close>

lemma running_previous_pred: "0 < i \<Longrightarrow> running_previous rs i = r_emotion (rs ! (i - 1))"
proof (induction i)
  case 0
  then show ?case by simp
next
  case (Suc i)
  then show ?case by (cases "i = 0") auto
qed

lemma upt_from_one_Suc: "[Suc 0..<Suc (Suc n)] = Suc 0 # map Suc [Suc 0..<Suc n]"
  by (metis map_Suc_upt upt_conv_Cons zero_less_Suc Suc_less_eq)

lemma changes_loop_index:
  "changes_loop (r_emotion p) rs =
     map (event_at (p # rs)) (filter (differs_at (p # rs)) [1..<Suc (length rs)])"
proof (induction rs arbitrary: p)
  case Nil
  show ?case by simp
next
  case (Cons r rs)
  have shift_f: "filter (differs_at (p # r # rs)) (map Suc [1..<Suc (length rs)])
               = map Suc (filter (differs_at (r # rs)) [1..<Suc (length rs)])"
    unfolding filter_map
    by (rule arg_cong[where f="map Suc"], rule filter_cong)
       (auto simp: differs_at_def running_previous_pred nth_Cons' simp del: upt_Suc)
  have shift_m: "map (event_at (p # r # rs)) (map Suc (filter (differs_at (r # rs)) [1..<Suc (length rs)]))
               = map (event_at (r # rs)) (filter (differs_at (r # rs)) [1..<Suc (length rs)])"
    unfolding map_map
    by (rule map_cong)
       (auto simp: event_at_def running_previous_pred nth_Cons' simp del: upt_Suc)
  have tail: "changes_loop (r_emotion r) rs
      = map (event_at (p # r # rs)) (filter (differs_at (p # r # rs)) (map Suc [1..<Suc (length rs)]))"
    using Cons.IH[of r] shift_f shift_m by simp
  show ?case
  proof (cases "r_emotion r = r_emotion p")
    case True
    then have step: "changes_loop (r_emotion p) (r # rs) = changes_loop (r_emotion r) rs"
      by simp
    have "\<not> differs_at (p # r # rs) (Suc 0)" using True by (simp add: differs_at_def)
    then show ?thesis
      unfolding step tail by (simp add: upt_from_one_Suc del: upt_Suc)
  next
    case False
    then have step: "changes_loop (r_emotion p) (r # rs)
        = event_at (p # r # rs) (Suc 0) # changes_loop (r_emotion r) rs"
      by (simp add: event_at_def Let_def)
    have "differs_at (p # r # rs) (Suc 0)" using False by (simp add: differs_at_def)
    then show ?thesis
      unfolding step tail by (simp add: upt_from_one_Suc del: upt_Suc)
  qed
qed

lemma detect_index:
  "detect_emotion_changes rs = map (event_at rs) (filter (differs_at rs) [1..<length rs])"
proof (cases rs)
  case Nil
  then show ?thesis by (simp add: detect_emotion_changes_def)
next
  case (Cons p ps)
  show ?thesis
  proof (cases ps)
    case Nil
    with Cons show ?thesis by (simp add: detect_emotion_changes_def)
  next
    case (Cons q qs)
    with \<open>rs = p # ps\<close> show ?thesis
      using changes_loop_index[of p ps]
      by (simp add: detect_emotion_changes_def del: upt_Suc changes_loop.simps)
  qed
qed

lemma detect_uniform:
  assumes "\<forall>r \<in> set rs. r_emotion r = e"
  shows "detect_emotion_changes rs = []"
proof -
  have "\<not> differs_at rs i" if "i \<in> set [1..<length rs]" for i
    using that assms nth_mem[of i rs] nth_mem[of "i - 1" rs]
    by (auto simp: differs_at_def running_previous_pred)
  then have "filter (differs_at rs) [1..<length rs] = []"
    by (auto simp: filter_empty_conv)
  then show ?thesis by (simp add: detect_index)
qed

lemma detect_five:
  assumes "map r_emotion rs = [''neutral'', ''neutral'', ''happy'', ''happy'', ''sad'']"
  shows "detect_emotion_changes rs =
     [\<lparr>timestamp = r_start_time (rs ! 2), from_emotion = ''neutral'',
       to_emotion = ''happy'', ch_confidence = r_confidence (rs ! 2)\<rparr>,
      \<lparr>timestamp = r_start_time (rs ! 4), from_emotion = ''happy'',
       to_emotion = ''sad'', ch_confidence = r_confidence (rs ! 4)\<rparr>]"
proof -
  from assms obtain a b c d e where rs: "rs = [a, b, c, d, e]"
    by (auto simp: map_eq_Cons_conv)
  with assms show ?thesis
    by (simp add: detect_emotion_changes_def Let_def)
qed

text \<open>
  C8. \<^verbatim>\<open>detect_emotion_changes\<close> emits an event exactly at the positions \<open>i \<ge> 1\<close> whose
  emotion differs from the running previous emotion, in order, with the timestamp and the
  confidence of the prediction at \<open>i\<close>; fewer than two predictions and any sequence with a
  single label give no event; the labels neutral, neutral, happy, happy, sad give the two
  events neutral to happy at the third and happy to sad at the fifth prediction.
\<close>

theorem detect_changes_spec:
  "detect_emotion_changes rs = map (event_at rs) (filter (differs_at rs) [1..<length rs])
   \<and> (length rs < 2 \<longrightarrow> detect_emotion_changes rs = [])
   \<and> ((\<forall>r \<in> set rs. r_emotion r = e) \<longrightarrow> detect_emotion_changes rs = [])
   \<and> (map r_emotion rs = [''neutral'', ''neutral'', ''happy'', ''happy'', ''sad''] \<longrightarrow>
        detect_emotion_changes rs =
          [\<lparr>timestamp = r_start_time (rs ! 2), from_emotion = ''neutral'',
            to_emotion = ''happy'', ch_confidence = r_confidence (rs ! 2)\<rparr>,
           \<lparr>timestamp = r_start_time (rs ! 4), from_emotion = ''happy'',
            to_emotion = ''sad'', ch_confidence = r_confidence (rs ! 4)\<rparr>])"
  using detect_index[of rs] detect_uniform[of rs e] detect_five[of rs]
  by (simp add: detect_emotion_changes_def)

theorem detect_changes_spec_witness:
  "length [mk_result 0 3 ''happy'' 1] < 2
   \<and> detect_emotion_changes [mk_result 0 3 ''happy'' 1] = []
   \<and> list_all (\<lambda>r. r_emotion r = ''sad'')
         [mk_result 0 3 ''sad'' 1, mk_result 3 6 ''sad'' 0.5, mk_result 6 9 ''sad'' 1]
   \<and> detect_emotion_changes
        [mk_result 0 3 ''sad'' 1, mk_result 3 6 ''sad'' 0.5, mk_result 6 9 ''sad'' 1] = []
   \<and> map r_emotion [mk_result 0 3 ''neutral'' 1, mk_result 3 6 ''neutral'' 1,
        mk_result 6 9 ''happy'' 0.5, mk_result 9 12 ''happy'' 1, mk_result 12 13 ''sad'' 0.75]
      = [''neutral'', ''neutral'', ''happy'', ''happy'', ''sad'']
   \<and> detect_emotion_changes [mk_result 0 3 ''neutral'' 1, mk_result 3 6 ''neutral'' 1,
        mk_result 6 9 ''happy'' 0.5, mk_result 9 12 ''happy'' 1, mk_result 12 13 ''sad'' 0.75]
      = [\<lparr>timestamp = 6, from_emotion = ''neutral'', to_emotion = ''happy'', ch_confidence = 0.5\<rparr>,
         \<lparr>timestamp = 12, from_emotion = ''happy'', to_emotion = ''sad'', ch_confidence = 0.75\<rparr>]"
  using detect_changes_spec[of "[mk_result 0 3 ''happy'' 1]" "''happy''"]
    detect_changes_spec[of "[mk_result 0 3 ''sad'' 1, mk_result 3 6 ''sad'' 0.5,
        mk_result 6 9 ''sad'' 1]" "''sad''"]
    detect_changes_spec[of "[mk_result 0 3 ''neutral'' 1, mk_result 3 6 ''neutral'' 1,
        mk_result 6 9 ''happy'' 0.5, mk_result 9 12 ''happy'' 1, mk_result 12 13 ''sad'' 0.75]"
        "''x''"]
  by (simp add: mk_result_def detect_emotion_changes_def Let_def)

subsection \<open>Statistics\<close>

lemma stats_loop_total:
  "snd (snd (stats_loop fp (c, d, t) rs))
     = foldl (f_add fp) t (map (prediction_duration fp) rs)"
  by (induction rs arbitrary: c d t) (simp_all add: prediction_duration_def Let_def)

lemma filter_first_seen_known:
  "e \<in> S \<Longrightarrow> filter (\<lambda>x. x \<notin> S) (filter (\<lambda>y. y \<noteq> e) xs) = filter (\<lambda>x. x \<notin> S) xs"
  by (induction xs) auto

lemma filter_first_seen_new:
  "filter (\<lambda>x. x \<notin> insert e S) xs = filter (\<lambda>x. x \<notin> S) (filter (\<lambda>y. y \<noteq> e) xs)"
  by (induction xs) auto

lemma stats_loop_keys:
  "map fst (fst (snd (stats_loop fp (c, d, t) rs)))
     = map fst d @ filter (\<lambda>e. e \<notin> set (map fst d)) (first_seen (map r_emotion rs))"
proof (induction rs arbitrary: c d t)
  case Nil
  show ?case by simp
next
  case (Cons r rs)
  let ?e = "r_emotion r"
  let ?d = "AList.update ?e
              (f_add fp (dict_get d ?e 0) (f_sub fp (r_end_time r) (r_start_time r))) d"
  show ?case
  proof (cases "?e \<in> set (map fst d)")
    case True
    then have k: "map fst ?d = map fst d" by (simp add: update_keys)
    show ?thesis
      using True filter_first_seen_known[of ?e "set (map fst d)"]
      by (simp add: Let_def Cons.IH k del: set_map)
  next
    case False
    then have k: "map fst ?d = map fst d @ [?e]" by (simp add: update_keys)
    have s: "set (map fst d @ [?e]) = insert ?e (set (map fst d))" by simp
    show ?thesis
      using False
      by (simp add: Let_def Cons.IH k s filter_first_seen_new del: set_map set_append)
  qed
qed

lemma stats_loop_lookup:
  "map_of (fst (snd (stats_loop fp (c, d, t) rs))) e
     = (if e \<in> set (map fst d) \<union> set (map r_emotion rs)
        then Some (foldl (f_add fp) (dict_get d e 0)
                     (map (prediction_duration fp) (filter (\<lambda>r. r_emotion r = e) rs)))
        else None)"
proof (induction rs arbitrary: c d t)
  case Nil
  show ?case
    by (auto simp: dict_get_def map_of_eq_None_iff split: option.splits)
next
  case (Cons r rs)
  let ?e = "r_emotion r"
  let ?v = "f_add fp (dict_get d ?e 0) (f_sub fp (r_end_time r) (r_start_time r))"
  let ?d = "AList.update ?e ?v d"
  have keys: "set (map fst ?d) = insert ?e (set (map fst d))"
    using dom_update[of ?e _ d] by auto
  have get: "dict_get ?d x 0 = (if x = ?e then ?v else dict_get d x 0)" for x
    by (simp add: dict_get_def update_conv')
  show ?case
    unfolding stats_loop.simps Let_def Cons.IH keys get
    by (auto simp: prediction_duration_def [abs_def])
qed

lemma set_first_seen: "set (first_seen xs) = set xs"
  by (induction xs) auto

lemma distinct_first_seen: "distinct (first_seen xs)"
  by (induction xs) (auto simp: set_first_seen)

lemma stats_loop_start:
  "\<exists>counts durations.
    stats_loop fp ([], [], 0) rs = (counts, durations, sum_duration fp rs)
    \<and> map fst durations = first_seen (map r_emotion rs)
    \<and> (\<forall>e. map_of durations e
        = (if e \<in> set (map r_emotion rs) then Some (label_duration fp rs e) else None))"
proof -
  obtain counts durations tot where st: "stats_loop fp ([], [], 0) rs = (counts, durations, tot)"
    by (cases "stats_loop fp ([], [], 0) rs") auto
  have "tot = sum_duration fp rs"
    using stats_loop_total[of fp "[]" "[]" 0 rs] st by (simp add: sum_duration_def)
  moreover have "map fst durations = first_seen (map r_emotion rs)"
    using stats_loop_keys[of fp "[]" "[]" 0 rs] st by simp
  moreover have "map_of durations e
        = (if e \<in> set (map r_emotion rs) then Some (label_duration fp rs e) else None)" for e
    using stats_loop_lookup[of fp "[]" "[]" 0 rs e] st
    by (simp add: dict_get_def label_duration_def)
  ultimately show ?thesis using st by blast
qed

lemma keys_map_values: "map fst (map (\<lambda>(k, v). (k, f k v)) d) = map fst d"
  by (induction d) auto

lemma round_table_lookup:
  "map_of (map (\<lambda>(k, v). (k, f v)) d) e = map_option f (map_of d e)"
  by (induction d) auto

lemma stats_percentages:
  assumes "e \<in> set (map r_emotion rs)"
  shows "map_of (emotion_percentages (calculate_statistics fp rs)) e
     = Some (if 0 < sum_duration fp rs
             then f_round fp 2
                    (f_mul fp (f_div fp (label_duration fp rs e) (sum_duration fp rs)) 100)
             else 0)"
proof -
  obtain counts durations where st:
    "stats_loop fp ([], [], 0) rs = (counts, durations, sum_duration fp rs)"
    "\<And>e. map_of durations e
        = (if e \<in> set (map r_emotion rs) then Some (label_duration fp rs e) else None)"
    using stats_loop_start[of fp rs] by blast
  show ?thesis
    using assms st(2)[of e]
    by (simp add: calculate_statistics_def st(1) Let_def round_table_lookup
             del: set_map map_map)
qed

lemma stats_durations:
  assumes "e \<in> set (map r_emotion rs)"
  shows "map_of (emotion_durations (calculate_statistics fp rs)) e
     = Some (f_round fp 2 (label_duration fp rs e))"
proof -
  obtain counts durations where st:
    "stats_loop fp ([], [], 0) rs = (counts, durations, sum_duration fp rs)"
    "\<And>e. map_of durations e
        = (if e \<in> set (map r_emotion rs) then Some (label_duration fp rs e) else None)"
    using stats_loop_start[of fp rs] by blast
  show ?thesis
    using assms st(2)[of e]
    by (simp add: calculate_statistics_def st(1) Let_def round_table_lookup del: set_map)
qed

lemma stats_keys:
  "map fst (emotion_percentages (calculate_statistics fp rs)) = first_seen (map r_emotion rs)
   \<and> map fst (emotion_durations (calculate_statistics fp rs)) = first_seen (map r_emotion rs)
   \<and> total_duration (calculate_statistics fp rs)
       = (if rs = [] then 0 else f_round fp 2 (sum_duration fp rs))"
proof -
  obtain counts durations where st:
    "stats_loop fp ([], [], 0) rs = (counts, durations, sum_duration fp rs)"
    "map fst durations = first_seen (map r_emotion rs)"
    using stats_loop_start[of fp rs] by blast
  show ?thesis
    using st(2) by (simp add: calculate_statistics_def st(1) Let_def keys_map_values del: map_map)
qed
lemma stats_dominant:
  assumes "rs \<noteq> []"
  shows "first_argmax (label_duration fp rs) (first_seen (map r_emotion rs))
           (dominant_emotion (calculate_statistics fp rs))"
proof -
  obtain counts durations where st:
    "stats_loop fp ([], [], 0) rs = (counts, durations, sum_duration fp rs)"
    "map fst durations = first_seen (map r_emotion rs)"
    "\<And>e. map_of durations e
        = (if e \<in> set (map r_emotion rs) then Some (label_duration fp rs e) else None)"
    using stats_loop_start[of fp rs] by blast
  from assms st(2) have ne: "durations \<noteq> []" by (cases rs) auto
  then obtain kv where kv: "py_max_key snd durations = Some kv"
    by (cases durations) auto
  have dom: "dominant_emotion (calculate_statistics fp rs) = fst kv"
    using ne kv by (simp add: calculate_statistics_def st(1) Let_def)
  have dist: "distinct (map fst durations)"
    unfolding st(2) by (rule distinct_first_seen)
  have val: "snd (durations ! j) = label_duration fp rs (fst (durations ! j))"
    if "j < length durations" for j
  proof -
    have "(fst (durations ! j), snd (durations ! j)) \<in> set durations"
      using that by simp
    then have "map_of durations (fst (durations ! j)) = Some (snd (durations ! j))"
      using dist by (simp only: map_of_eq_Some_iff)
    then show ?thesis
      using st(3)[of "fst (durations ! j)"] by (simp split: if_splits)
  qed
  from py_max_key_first_argmax[OF kv] obtain i where i:
    "i < length durations" "durations ! i = kv"
    "\<forall>j < length durations. snd (durations ! j) \<le> snd kv"
    "\<forall>j < i. snd (durations ! j) < snd kv"
    unfolding first_argmax_def by blast
  have len: "length (first_seen (map r_emotion rs)) = length durations"
    using st(2) by (metis length_map)
  have nth: "first_seen (map r_emotion rs) ! j = fst (durations ! j)" if "j < length durations" for j
    using that st(2) by (metis nth_map)
  have kvv: "snd kv = label_duration fp rs (fst kv)"
    using val[OF i(1)] i(2) by simp
  show ?thesis
    unfolding first_argmax_def dom len
  proof (intro exI[of _ i] conjI allI impI)
    show "i < length durations" by (rule i(1))
    show "first_seen (map r_emotion rs) ! i = fst kv" using nth[OF i(1)] i(2) by simp
  next
    fix j assume j: "j < length durations"
    show "label_duration fp rs (first_seen (map r_emotion rs) ! j) \<le> label_duration fp rs (fst kv)"
      using i(3) j val[OF j] nth[OF j] kvv by auto
  next
    fix j assume j: "j < i"
    then have jl: "j < length durations" using i(1) by simp
    show "label_duration fp rs (first_seen (map r_emotion rs) ! j) < label_duration fp rs (fst kv)"
      using i(4) j val[OF jl] nth[OF jl] kvv by auto
  qed
qed

lemma stats_empty: "dominant_emotion (calculate_statistics fp []) = ''Unknown''"
  by (simp add: calculate_statistics_def)

lemma py_round_whole: "py_round n (of_int k) = of_int k"
proof -
  have "(of_int k :: real) * 10 ^ n = of_int (k * 10 ^ n)" by simp
  then have "round_half_even (of_int k * 10 ^ n) = k * 10 ^ n"
    unfolding round_half_even_def Let_def by (simp only: floor_of_int) simp
  then show ?thesis by (simp add: py_round_def)
qed

lemma ex_percentages:
  assumes labels: "set (map r_emotion rs) = {''happy'', ''sad'', ''neutral''}"
    and h: "label_duration fp rs ''happy'' = 6"
    and s: "label_duration fp rs ''sad'' = 3"
    and n: "label_duration fp rs ''neutral'' = 1"
    and tot: "sum_duration fp rs = 10"
    and r60: "f_round fp 2 (f_mul fp (f_div fp 6 10) 100) = 60"
    and r30: "f_round fp 2 (f_mul fp (f_div fp 3 10) 100) = 30"
    and r10: "f_round fp 2 (f_mul fp (f_div fp 1 10) 100) = 10"
  shows "map_of (emotion_percentages (calculate_statistics fp rs)) ''happy'' = Some 60"
    "map_of (emotion_percentages (calculate_statistics fp rs)) ''sad'' = Some 30"
    "map_of (emotion_percentages (calculate_statistics fp rs)) ''neutral'' = Some 10"
proof -
  have m: "''happy'' \<in> set (map r_emotion rs)" "''sad'' \<in> set (map r_emotion rs)"
    "''neutral'' \<in> set (map r_emotion rs)"
    unfolding labels by simp_all
  show "map_of (emotion_percentages (calculate_statistics fp rs)) ''happy'' = Some 60"
    unfolding stats_percentages[OF m(1)] tot h by (simp add: r60)
  show "map_of (emotion_percentages (calculate_statistics fp rs)) ''sad'' = Some 30"
    unfolding stats_percentages[OF m(2)] tot s by (simp add: r30)
  show "map_of (emotion_percentages (calculate_statistics fp rs)) ''neutral'' = Some 10"
    unfolding stats_percentages[OF m(3)] tot n by (simp add: r10)
qed

lemma ex_dominant:
  assumes labels: "set (map r_emotion rs) = {''happy'', ''sad'', ''neutral''}"
    and h: "label_duration fp rs ''happy'' = 6"
    and s: "label_duration fp rs ''sad'' = 3"
    and n: "label_duration fp rs ''neutral'' = 1"
  shows "dominant_emotion (calculate_statistics fp rs) = ''happy''"
proof -
  let ?L = "first_seen (map r_emotion rs)"
  let ?dom = "dominant_emotion (calculate_statistics fp rs)"
  have "rs \<noteq> []"
  proof
    assume "rs = []"
    with labels show False by simp
  qed
  from stats_dominant[OF this] obtain i where i: "i < length ?L" "?L ! i = ?dom"
    and mx: "\<forall>j < length ?L. label_duration fp rs (?L ! j) \<le> label_duration fp rs ?dom"
    unfolding first_argmax_def by blast
  have "?L ! i \<in> set ?L" using i(1) by (rule nth_mem)
  then have mem: "?dom = ''happy'' \<or> ?dom = ''sad'' \<or> ?dom = ''neutral''"
    unfolding i(2) set_first_seen labels by simp
  have "''happy'' \<in> set ?L"
    unfolding set_first_seen labels by simp
  then obtain j where j: "j < length ?L" "?L ! j = ''happy''"
    unfolding in_set_conv_nth by blast
  have "label_duration fp rs (?L ! j) \<le> label_duration fp rs ?dom"
    using mx[rule_format, OF j(1)] .
  then have "label_duration fp rs ''happy'' \<le> label_duration fp rs ?dom"
    unfolding j(2) .
  then have six: "6 \<le> label_duration fp rs ?dom" unfolding h .
  show ?thesis
  proof (rule ccontr)
    assume "?dom \<noteq> ''happy''"
    with mem have "?dom = ''sad'' \<or> ?dom = ''neutral''" by blast
    then have "label_duration fp rs ?dom \<le> 3"
    proof
      assume "?dom = ''sad''"
      then show ?thesis by (simp only: s)
    next
      assume "?dom = ''neutral''"
      then show ?thesis by (simp only: n)
    qed
    with six show False by simp
  qed
qed

text \<open>
  C9, as the code has it. Every value that \<^verbatim>\<open>calculate_statistics\<close> returns is rounded to two
  decimals by \<^verbatim>\<open>round\<close>, in the program's float arithmetic: for a label \<open>e\<close> that occurs,
  the percentage is \<^verbatim>\<open>round(D[e] / T * 100, 2)\<close>, where \<open>D[e]\<close> is the unrounded running
  sum of the durations of \<open>e\<close> and \<open>T\<close> the unrounded running sum of all durations, and it
  is 0 when \<open>T\<close> is not positive; the returned duration of \<open>e\<close> is \<^verbatim>\<open>round(D[e], 2)\<close> and
  the returned total is \<^verbatim>\<open>round(T, 2)\<close>, or 0 for no prediction. The keys stand in
  first-seen order. The dominant emotion is \<^verbatim>\<open>Unknown\<close> for no prediction and otherwise the
  first label, in first-seen order, of maximal \<open>D\<close>. Predictions that cover happy 6 s,
  sad 3 s and neutral 1 s, 10 s in total, give happy, and the percentages 60, 30 and 10
  where the float quotients times 100 round to these values, as they do for doubles.
\<close>

theorem statistics_spec:
  "map fst (emotion_percentages (calculate_statistics fp rs)) = first_seen (map r_emotion rs)
   \<and> map fst (emotion_durations (calculate_statistics fp rs)) = first_seen (map r_emotion rs)
   \<and> total_duration (calculate_statistics fp rs)
       = (if rs = [] then 0 else f_round fp 2 (sum_duration fp rs))
   \<and> (e \<in> set (map r_emotion rs) \<longrightarrow>
        map_of (emotion_percentages (calculate_statistics fp rs)) e
          = Some (if 0 < sum_duration fp rs
                  then f_round fp 2
                         (f_mul fp (f_div fp (label_duration fp rs e) (sum_duration fp rs)) 100)
                  else 0)
        \<and> map_of (emotion_durations (calculate_statistics fp rs)) e
          = Some (f_round fp 2 (label_duration fp rs e)))
   \<and> (rs = [] \<longrightarrow> dominant_emotion (calculate_statistics fp rs) = ''Unknown'')
   \<and> (rs \<noteq> [] \<longrightarrow>
        first_argmax (label_duration fp rs) (first_seen (map r_emotion rs))
          (dominant_emotion (calculate_statistics fp rs)))
   \<and> (set (map r_emotion rs) = {''happy'', ''sad'', ''neutral''}
        \<and> label_duration fp rs ''happy'' = 6 \<and> label_duration fp rs ''sad'' = 3
        \<and> label_duration fp rs ''neutral'' = 1 \<and> sum_duration fp rs = 10
        \<and> f_round fp 2 (f_mul fp (f_div fp 6 10) 100) = 60
        \<and> f_round fp 2 (f_mul fp (f_div fp 3 10) 100) = 30
        \<and> f_round fp 2 (f_mul fp (f_div fp 1 10) 100) = 10 \<longrightarrow>
        dominant_emotion (calculate_statistics fp rs) = ''happy''
        \<and> map_of (emotion_percentages (calculate_statistics fp rs)) ''happy'' = Some 60
        \<and> map_of (emotion_percentages (calculate_statistics fp rs)) ''sad'' = Some 30
        \<and> map_of (emotion_percentages (calculate_statistics fp rs)) ''neutral'' = Some 10)"
proof (intro conjI impI)
  show "map fst (emotion_percentages (calculate_statistics fp rs)) = first_seen (map r_emotion rs)"
    "map fst (emotion_durations (calculate_statistics fp rs)) = first_seen (map r_emotion rs)"
    "total_duration (calculate_statistics fp rs)
       = (if rs = [] then 0 else f_round fp 2 (sum_duration fp rs))"
    using stats_keys[of fp rs] by blast+
next
  assume "e \<in> set (map r_emotion rs)"
  then show "map_of (emotion_percentages (calculate_statistics fp rs)) e
          = Some (if 0 < sum_duration fp rs
                  then f_round fp 2
                         (f_mul fp (f_div fp (label_duration fp rs e) (sum_duration fp rs)) 100)
                  else 0)"
    "map_of (emotion_durations (calculate_statistics fp rs)) e
          = Some (f_round fp 2 (label_duration fp rs e))"
    by (rule stats_percentages, rule stats_durations)
next
  assume "rs = []"
  then show "dominant_emotion (calculate_statistics fp rs) = ''Unknown''"
    by (simp add: stats_empty)
next
  assume "rs \<noteq> []"
  then show "first_argmax (label_duration fp rs) (first_seen (map r_emotion rs))
          (dominant_emotion (calculate_statistics fp rs))"
    by (rule stats_dominant)
next
  assume a: "set (map r_emotion rs) = {''happy'', ''sad'', ''neutral''}
        \<and> label_duration fp rs ''happy'' = 6 \<and> label_duration fp rs ''sad'' = 3
        \<and> label_duration fp rs ''neutral'' = 1 \<and> sum_duration fp rs = 10
        \<and> f_round fp 2 (f_mul fp (f_div fp 6 10) 100) = 60
        \<and> f_round fp 2 (f_mul fp (f_div fp 3 10) 100) = 30
        \<and> f_round fp 2 (f_mul fp (f_div fp 1 10) 100) = 10"
  then show "dominant_emotion (calculate_statistics fp rs) = ''happy''"
    using ex_dominant[of rs fp] by blast
  from a show "map_of (emotion_percentages (calculate_statistics fp rs)) ''happy'' = Some 60"
    using ex_percentages(1)[of rs fp] by blast
  from a show "map_of (emotion_percentages (calculate_statistics fp rs)) ''sad'' = Some 30"
    using ex_percentages(2)[of rs fp] by blast
  from a show "map_of (emotion_percentages (calculate_statistics fp rs)) ''neutral'' = Some 10"
    using ex_percentages(3)[of rs fp] by blast
qed

theorem statistics_spec_witness:
  "''happy'' \<in> set (map r_emotion stats_example_input)
   \<and> stats_example_input \<noteq> []
   \<and> set (map r_emotion stats_example_input) = {''happy'', ''sad'', ''neutral''}
   \<and> label_duration exact_ops stats_example_input ''happy'' = 6
   \<and> label_duration exact_ops stats_example_input ''sad'' = 3
   \<and> label_duration exact_ops stats_example_input ''neutral'' = 1
   \<and> sum_duration exact_ops stats_example_input = 10
   \<and> f_round exact_ops 2 (f_mul exact_ops (f_div exact_ops 6 10) 100) = 60
   \<and> f_round exact_ops 2 (f_mul exact_ops (f_div exact_ops 3 10) 100) = 30
   \<and> f_round exact_ops 2 (f_mul exact_ops (f_div exact_ops 1 10) 100) = 10
   \<and> dominant_emotion (calculate_statistics exact_ops stats_example_input) = ''happy''
   \<and> map_of (emotion_percentages (calculate_statistics exact_ops stats_example_input)) ''happy''
       = Some 60
   \<and> map_of (emotion_percentages (calculate_statistics exact_ops stats_example_input)) ''sad''
       = Some 30
   \<and> map_of (emotion_percentages (calculate_statistics exact_ops stats_example_input)) ''neutral''
       = Some 10
   \<and> first_argmax (label_duration exact_ops stats_example_input)
         (first_seen (map r_emotion stats_example_input))
         (dominant_emotion (calculate_statistics exact_ops stats_example_input))
   \<and> dominant_emotion (calculate_statistics exact_ops []) = ''Unknown''"
proof -
  have labels: "map r_emotion stats_example_input = [''happy'', ''happy'', ''sad'', ''neutral'']"
    by (simp add: stats_example_input_def mk_result_def)
  have set_labels: "set (map r_emotion stats_example_input) = {''happy'', ''sad'', ''neutral''}"
    unfolding labels by auto
  have mem: "''happy'' \<in> set (map r_emotion stats_example_input)"
    unfolding labels by simp
  have ne: "stats_example_input \<noteq> []"
    by (simp add: stats_example_input_def)
  have d: "label_duration exact_ops stats_example_input ''happy'' = 6"
    "label_duration exact_ops stats_example_input ''sad'' = 3"
    "label_duration exact_ops stats_example_input ''neutral'' = 1"
    "sum_duration exact_ops stats_example_input = 10"
    by (simp_all add: stats_example_input_def mk_result_def label_duration_def
          sum_duration_def prediction_duration_def exact_ops_def)
  have r: "f_round exact_ops 2 (f_mul exact_ops (f_div exact_ops 6 10) 100) = 60"
    "f_round exact_ops 2 (f_mul exact_ops (f_div exact_ops 3 10) 100) = 30"
    "f_round exact_ops 2 (f_mul exact_ops (f_div exact_ops 1 10) 100) = 10"
    using py_round_whole[of 2 60] py_round_whole[of 2 30] py_round_whole[of 2 10]
    by (simp_all add: exact_ops_def)
  note main = statistics_spec[of exact_ops stats_example_input "''happy''"]
  from main set_labels d r have ex:
    "dominant_emotion (calculate_statistics exact_ops stats_example_input) = ''happy''
     \<and> map_of (emotion_percentages (calculate_statistics exact_ops stats_example_input)) ''happy''
         = Some 60
     \<and> map_of (emotion_percentages (calculate_statistics exact_ops stats_example_input)) ''sad''
         = Some 30
     \<and> map_of (emotion_percentages (calculate_statistics exact_ops stats_example_input)) ''neutral''
         = Some 10"
    by blast
  from main ne have am: "first_argmax (label_duration exact_ops stats_example_input)
         (first_seen (map r_emotion stats_example_input))
         (dominant_emotion (calculate_statistics exact_ops stats_example_input))"
    by blast
  from statistics_spec[of exact_ops "[]" "''happy''"]
  have un: "dominant_emotion (calculate_statistics exact_ops []) = ''Unknown''"
    by blast
  from mem ne set_labels d r ex am un show ?thesis by blast
qed

text \<open>
  The claim as worded fails on the values returned: for one second of happy and two of sad
  the returned percentage of happy is 33.33, while the returned duration over the returned
  total, times 100, is 100/3. In double arithmetic the same run returns 33.33 against
  33.33333333333333.
\<close>

theorem statistics_unrounded_counterexample:
  "map_of (emotion_percentages (calculate_statistics exact_ops
      [mk_result 0 1 ''happy'' 1, mk_result 1 3 ''sad'' 1])) ''happy'' = Some (3333 / 100)
   \<and> dict_get (emotion_durations (calculate_statistics exact_ops
      [mk_result 0 1 ''happy'' 1, mk_result 1 3 ''sad'' 1])) ''happy'' 0
      / total_duration (calculate_statistics exact_ops
      [mk_result 0 1 ''happy'' 1, mk_result 1 3 ''sad'' 1]) * 100 = 100 / 3
   \<and> (3333 / 100 :: real) \<noteq> 100 / 3"
  by (simp add: calculate_statistics_def mk_result_def Let_def dict_get_def py_round_def
        round_half_even_def exact_ops_def)

subsection \<open>Segmentation\<close>

lemma window_count_gt: "0 < n \<Longrightarrow> (k < window_count n audio) = (k * n < length audio)"
proof -
  assume n: "0 < n"
  have "(k < window_count n audio) = (Suc k \<le> (length audio + n - 1) div n)"
    unfolding window_count_def by auto
  also have "\<dots> = (Suc k * n \<le> length audio + n - 1)"
    using n by (simp only: less_eq_div_iff_mult_less_eq)
  also have "\<dots> = (k * n < length audio)"
    using n by auto
  finally show ?thesis .
qed

lemma slice_index_nat: "slice_index (int m) (int k) = min k m"
proof -
  have "min (int k) (int m) = int (min k m)" by (simp add: of_nat_min)
  then show ?thesis unfolding slice_index_def by (simp only: nat_int if_False of_nat_less_0_iff)
qed

lemma chunk_body_window:
  assumes n: "0 < n" and sr: "sr \<noteq> 0" and lt: "i * n < length audio"
  shows "chunk_body fp (int n) sr audio (int (i * n))
           = Inr (window_chunk fp n sr audio i, int (window_end n audio i))"
proof -
  have e: "min (int (i * n) + int n) (int (length audio)) = int (window_end n audio i)"
    unfolding window_end_def by (simp add: of_nat_min)
  have lo: "slice_index (int (length audio)) (int (i * n)) = i * n"
    using lt unfolding slice_index_nat by simp
  have hi: "slice_index (int (length audio)) (int (window_end n audio i)) = window_end n audio i"
    unfolding slice_index_nat by (simp add: window_end_def)
  have sl: "py_slice audio (int (i * n)) (int (window_end n audio i))
              = take (window_end n audio i - i * n) (drop (i * n) audio)"
    unfolding py_slice_def Let_def lo hi ..
  let ?s = "take (window_end n audio i - i * n) (drop (i * n) audio)"
  have len: "length ?s \<le> n"
    unfolding window_end_def by simp
  have pad: "(if int (length ?s) < int n
              then ?s @ replicate (nat (int n - int (length ?s))) 0 else ?s)
             = ?s @ replicate (n - length ?s) 0"
  proof (cases "length ?s < n")
    case True
    have "nat (int a - int b) = a - b" for a b :: nat by arith
    then have "nat (int n - int (length ?s)) = n - length ?s" .
    with True show ?thesis by (simp only: of_nat_less_iff if_True)
  next
    case False
    with len have "length ?s = n" by simp
    then show ?thesis by simp
  qed
  show ?thesis
    unfolding chunk_body_def Let_def e sl pad window_chunk_def reported_time_def
    using sr by simp
qed

lemma split_loop_done:
  "\<not> pos < int (length audio) \<Longrightarrow> split_loop fp cs sr audio pos acc = Some (Inr acc)"
  by (subst split_loop.simps) simp

lemma split_loop_windows:
  assumes n: "0 < n" and sr: "sr \<noteq> 0"
  shows "k * n < length audio \<Longrightarrow>
     split_loop fp (int n) sr audio (int (k * n)) acc
       = Some (Inr (acc @ map (window_chunk fp n sr audio) [k..<window_count n audio]))"
proof (induction "window_count n audio - k" arbitrary: k acc)
  case 0
  then have "\<not> k < window_count n audio" by simp
  with 0 n show ?case by (simp add: window_count_gt)
next
  case (Suc d)
  have klt: "k < window_count n audio" using Suc.prems n by (simp add: window_count_gt)
  have body: "chunk_body fp (int n) sr audio (int (k * n))
           = Inr (window_chunk fp n sr audio k, int (window_end n audio k))"
    using n sr Suc.prems by (rule chunk_body_window)
  have step: "split_loop fp (int n) sr audio (int (k * n)) acc
      = split_loop fp (int n) sr audio (int (window_end n audio k)) (acc @ [window_chunk fp n sr audio k])"
    using Suc.prems by (subst split_loop.simps) (simp add: body del: of_nat_mult)
  have upt: "[k..<window_count n audio] = k # [Suc k..<window_count n audio]"
    using klt by (rule upt_conv_Cons)
  show ?case
  proof (cases "Suc k * n < length audio")
    case True
    then have we: "window_end n audio k = Suc k * n" by (simp add: window_end_def)
    have d: "d = window_count n audio - Suc k" using Suc.hyps(2) by simp
    show ?thesis
      unfolding step we upt using Suc.hyps(1)[OF d True] by simp
  next
    case False
    then have we: "window_end n audio k = length audio" by (simp add: window_end_def)
    have "\<not> Suc k < window_count n audio" using False n by (simp add: window_count_gt)
    with klt have "[Suc k..<window_count n audio] = []" by simp
    then show ?thesis
      unfolding step we upt by (simp add: split_loop_done)
  qed
qed

lemma rate_nonzero:
  assumes "f_mul fp chunk_duration 0 = 0"
    and "1 \<le> py_int (f_mul fp chunk_duration (of_int sr))"
  shows "sr \<noteq> 0"
proof
  assume "sr = 0"
  with assms(1) have "py_int (f_mul fp chunk_duration (of_int sr)) = 0"
    by (simp add: py_int_def)
  with assms(2) show False by simp
qed

lemma split_windows:
  assumes cs: "1 \<le> py_int (f_mul fp chunk_duration (of_int sr))" and sr: "sr \<noteq> 0"
  shows "split_into_chunks fp chunk_duration sr audio
     = Some (Inr (map (window_chunk fp (nat (py_int (f_mul fp chunk_duration (of_int sr)))) sr audio)
                    [0..<window_count (nat (py_int (f_mul fp chunk_duration (of_int sr)))) audio]))"
proof -
  let ?n = "nat (py_int (f_mul fp chunk_duration (of_int sr)))"
  have n: "0 < ?n" and eq: "py_int (f_mul fp chunk_duration (of_int sr)) = int ?n"
    using cs by simp_all
  show ?thesis
  proof (cases "audio = []")
    case True
    then have "window_count ?n audio = 0" using n by (simp add: window_count_def)
    with True show ?thesis
      unfolding split_into_chunks_def by (simp add: split_loop_done)
  next
    case False
    then have "0 * ?n < length audio" by simp
    from split_loop_windows[OF n sr this, of fp "[]"] show ?thesis
      unfolding split_into_chunks_def eq[symmetric] by simp
  qed
qed

text \<open>At rate 0 the first iteration raises.\<close>

lemma split_rate_zero:
  assumes "audio \<noteq> []"
  shows "split_into_chunks fp chunk_duration 0 audio = Some (Inl ZeroDivisionError)"
  unfolding split_into_chunks_def using assms
  by (subst split_loop.simps) (simp add: chunk_body_def Let_def)

lemma split_loop_stuck:
  assumes ret: "split_loop fp cs sr audio pos acc = Some y"
  shows "\<not> (cs = 0 \<and> sr \<noteq> 0 \<and> 0 \<le> pos \<and> pos < int (length audio))"
proof (rule split_loop.raw_induct
    [where P = "\<lambda>fp cs sr audio pos acc y.
                  \<not> (cs = 0 \<and> sr \<noteq> 0 \<and> 0 \<le> pos \<and> pos < int (length audio))",
     OF _ ret])
  fix loop :: "float_ops \<Rightarrow> int \<Rightarrow> int \<Rightarrow> real list \<Rightarrow> int \<Rightarrow> chunk list
                \<Rightarrow> (py_error + chunk list) option"
  fix fp :: float_ops and cs sr :: int and audio :: "real list" and pos :: int and acc :: "chunk list"
    and y :: "py_error + chunk list"
  assume IH: "\<And>fp cs sr audio pos acc y. loop fp cs sr audio pos acc = Some y \<Longrightarrow>
     \<not> (cs = 0 \<and> sr \<noteq> 0 \<and> 0 \<le> pos \<and> pos < int (length audio))"
  assume eq: "(if pos < int (length audio)
      then case chunk_body fp cs sr audio pos of
           Inl e \<Rightarrow> Some (Inl e)
           | Inr (c, next_position) \<Rightarrow> loop fp cs sr audio next_position (acc @ [c])
      else Some (Inr acc)) = Some y"
  show "\<not> (cs = 0 \<and> sr \<noteq> 0 \<and> 0 \<le> pos \<and> pos < int (length audio))"
  proof
    assume a: "cs = 0 \<and> sr \<noteq> 0 \<and> 0 \<le> pos \<and> pos < int (length audio)"
    then obtain c where "chunk_body fp cs sr audio pos = Inr (c, pos)"
      by (simp add: chunk_body_def Let_def)
    with eq a have "loop fp cs sr audio pos (acc @ [c]) = Some y" by simp
    from IH[OF this] a show False by simp
  qed
qed

lemma py_round_zero: "py_round n 0 = 0"
  by (simp add: py_round_def round_half_even_def)

lemma split_empty: "split_into_chunks fp chunk_duration sr [] = Some (Inr [])"
  unfolding split_into_chunks_def by (simp add: split_loop_done)

lemma calculate_statistics_empty:
  "calculate_statistics fp [] =
     \<lparr>total_duration = 0, emotion_counts = [], emotion_durations = [],
      emotion_percentages = [], dominant_emotion = ''Unknown''\<rparr>"
  by (simp add: calculate_statistics_def)

lemma window_full:
  assumes "0 < n" "Suc i < window_count n audio"
  shows "window_end n audio i = i * n + n"
proof -
  from assms have "Suc i * n < length audio"
    using window_count_gt[OF assms(1), of "Suc i" audio] by blast
  then show ?thesis by (simp add: window_end_def)
qed

lemma window_last:
  assumes "0 < n" "Suc i = window_count n audio"
  shows "window_end n audio i = length audio \<and> i * n < length audio \<and> length audio \<le> i * n + n"
proof -
  have "i < window_count n audio" using assms(2) by simp
  then have a: "i * n < length audio"
    using window_count_gt[OF assms(1), of i audio] by blast
  have "\<not> Suc i < window_count n audio" using assms(2) by simp
  then have "\<not> Suc i * n < length audio"
    using window_count_gt[OF assms(1), of "Suc i" audio] by blast
  then have b: "length audio \<le> i * n + n" by simp
  from a b show ?thesis by (simp add: window_end_def)
qed

lemma window_payload_length:
  "length (audio_data (window_chunk fp n sr audio i)) = n"
  by (simp add: window_chunk_def window_end_def Let_def)

lemma window_times:
  "start_time (window_chunk fp n sr audio i) = reported_time fp sr (i * n)"
  "end_time (window_chunk fp n sr audio i) = reported_time fp sr (window_end n audio i)"
  "duration (window_chunk fp n sr audio i)
     = f_round fp 2 (f_sub fp (f_div fp (real (window_end n audio i)) (of_int sr))
                              (f_div fp (real (i * n)) (of_int sr)))"
  by (simp_all add: window_chunk_def Let_def)

lemma load_empty_librosa:
  "librosa_load dec = Inr ([], osr) \<Longrightarrow> load_audio fp dec = Inr ([], osr)"
  by (simp add: load_audio_def)

lemma load_empty_pydub:
  "librosa_load dec = Inl derr \<Longrightarrow> pydub_load dec = Inr ([], osr) \<Longrightarrow>
     load_audio fp dec = Inl LoadError"
  by (simp add: load_audio_def)

lemma analyze_no_chunks:
  "process_audio fp chunk_duration sr lib dec = Some (Inr []) \<Longrightarrow>
     analyze_audio fp chunk_duration sr lib dec predict
       = Some (Inr \<lparr>results = [], emotion_changes = [],
            stats = \<lparr>total_duration = 0, emotion_counts = [], emotion_durations = [],
                     emotion_percentages = [], dominant_emotion = ''Unknown''\<rparr>\<rparr>)"
  by (simp add: analyze_audio_def calculate_statistics_empty detect_emotion_changes_def)

lemma analyze_error:
  "process_audio fp chunk_duration sr lib dec = Some (Inl e) \<Longrightarrow>
     analyze_audio fp chunk_duration sr lib dec predict = Some (Inl e)"
  by (simp add: analyze_audio_def)

text \<open>
  C2, as the code has it. The code has no check for empty audio. \<^verbatim>\<open>_split_into_chunks\<close>
  does not enter its loop for a waveform with zero samples and returns the empty list of
  chunks without any error. What the analysis does with a file that decodes to zero
  samples depends on the decoder. Read by librosa at the target rate, or at another rate
  with a resampler that returns the empty waveform, it completes: no chunk, no
  prediction, no change event, a total duration of 0 and the dominant emotion
  \<^verbatim>\<open>Unknown\<close>. When the resampler raises on the empty waveform the analysis aborts with
  that error, and when the file is read by the pydub fallback, whose normalisation takes
  the maximum of an empty array, it aborts with the failure to load; in both cases before
  any chunk is produced.
\<close>

theorem empty_audio_spec:
  "split_into_chunks fp chunk_duration sr [] = Some (Inr [])
   \<and> (librosa_load dec = Inr ([], osr) \<and> (osr = sr \<or> lib_resample lib [] osr sr = Inr []) \<longrightarrow>
        process_audio fp chunk_duration sr lib dec = Some (Inr [])
        \<and> analyze_audio fp chunk_duration sr lib dec predict
            = Some (Inr \<lparr>results = [], emotion_changes = [],
                 stats = \<lparr>total_duration = 0, emotion_counts = [], emotion_durations = [],
                          emotion_percentages = [], dominant_emotion = ''Unknown''\<rparr>\<rparr>))
   \<and> (librosa_load dec = Inr ([], osr) \<and> osr \<noteq> sr \<and> lib_resample lib [] osr sr = Inl e \<longrightarrow>
        process_audio fp chunk_duration sr lib dec = Some (Inl e)
        \<and> analyze_audio fp chunk_duration sr lib dec predict = Some (Inl e))
   \<and> (librosa_load dec = Inr ([], osr) \<and> osr \<noteq> sr \<and> lib_resample lib [] osr sr = Inr a \<longrightarrow>
        process_audio fp chunk_duration sr lib dec = split_into_chunks fp chunk_duration sr a)
   \<and> (librosa_load dec = Inl derr \<and> pydub_load dec = Inr ([], osr) \<longrightarrow>
        process_audio fp chunk_duration sr lib dec = Some (Inl LoadError)
        \<and> analyze_audio fp chunk_duration sr lib dec predict = Some (Inl LoadError))"
proof (intro conjI impI)
  show "split_into_chunks fp chunk_duration sr [] = Some (Inr [])" by (rule split_empty)
next
  assume a: "librosa_load dec = Inr ([], osr) \<and> (osr = sr \<or> lib_resample lib [] osr sr = Inr [])"
  then have l: "load_audio fp dec = Inr ([], osr)" by (simp add: load_empty_librosa)
  from a show p: "process_audio fp chunk_duration sr lib dec = Some (Inr [])"
    unfolding process_audio_def l by (auto simp: split_empty)
  then show "analyze_audio fp chunk_duration sr lib dec predict
            = Some (Inr \<lparr>results = [], emotion_changes = [],
                 stats = \<lparr>total_duration = 0, emotion_counts = [], emotion_durations = [],
                          emotion_percentages = [], dominant_emotion = ''Unknown''\<rparr>\<rparr>)"
    by (rule analyze_no_chunks)
next
  assume a: "librosa_load dec = Inr ([], osr) \<and> osr \<noteq> sr \<and> lib_resample lib [] osr sr = Inl e"
  then have l: "load_audio fp dec = Inr ([], osr)" by (simp add: load_empty_librosa)
  from a show p: "process_audio fp chunk_duration sr lib dec = Some (Inl e)"
    unfolding process_audio_def l by simp
  then show "analyze_audio fp chunk_duration sr lib dec predict = Some (Inl e)"
    by (rule analyze_error)
next
  assume a: "librosa_load dec = Inr ([], osr) \<and> osr \<noteq> sr \<and> lib_resample lib [] osr sr = Inr a"
  then have l: "load_audio fp dec = Inr ([], osr)" by (simp add: load_empty_librosa)
  from a show "process_audio fp chunk_duration sr lib dec = split_into_chunks fp chunk_duration sr a"
    unfolding process_audio_def l by simp
next
  assume a: "librosa_load dec = Inl derr \<and> pydub_load dec = Inr ([], osr)"
  then have l: "load_audio fp dec = Inl LoadError" using load_empty_pydub[of dec derr osr fp] by blast
  show p: "process_audio fp chunk_duration sr lib dec = Some (Inl LoadError)"
    unfolding process_audio_def l by simp
  then show "analyze_audio fp chunk_duration sr lib dec predict = Some (Inl LoadError)"
    by (rule analyze_error)
qed

theorem empty_audio_spec_witness:
  "librosa_load (empty_by_librosa 16000) = Inr ([], 16000)
   \<and> analyze_audio exact_ops 3 16000 quiet_lib (empty_by_librosa 16000) failing_classifier
       = Some (Inr \<lparr>results = [], emotion_changes = [],
            stats = \<lparr>total_duration = 0, emotion_counts = [], emotion_durations = [],
                     emotion_percentages = [], dominant_emotion = ''Unknown''\<rparr>\<rparr>)
   \<and> librosa_load (empty_by_librosa 44100) = Inr ([], 44100)
   \<and> lib_resample quiet_lib [] 44100 16000 = Inr []
   \<and> process_audio exact_ops 3 16000 quiet_lib (empty_by_librosa 44100) = Some (Inr [])
   \<and> (44100 :: int) \<noteq> 16000
   \<and> lib_resample strict_lib [] 44100 16000 = Inl ValueError
   \<and> analyze_audio exact_ops 3 16000 strict_lib (empty_by_librosa 44100) failing_classifier
       = Some (Inl ValueError)
   \<and> librosa_load (empty_by_pydub 44100) = Inl LibraryError
   \<and> pydub_load (empty_by_pydub 44100) = Inr ([], 44100)
   \<and> analyze_audio exact_ops 3 16000 quiet_lib (empty_by_pydub 44100) failing_classifier
       = Some (Inl LoadError)"
proof -
  have h1: "librosa_load (empty_by_librosa 16000) = Inr ([], 16000)"
    and h2: "librosa_load (empty_by_librosa 44100) = Inr ([], 44100)"
    and h3: "lib_resample quiet_lib [] 44100 16000 = Inr []"
    and h4: "(44100 :: int) \<noteq> 16000"
    and h5: "lib_resample strict_lib [] 44100 16000 = Inl ValueError"
    and h6: "librosa_load (empty_by_pydub 44100) = Inl LibraryError"
    and h7: "pydub_load (empty_by_pydub 44100) = Inr ([], 44100)"
    by (simp_all add: empty_by_librosa_def empty_by_pydub_def quiet_lib_def strict_lib_def)
  from empty_audio_spec
    [where fp = exact_ops and chunk_duration = 3 and sr = 16000
       and dec = "empty_by_librosa 16000" and osr = 16000 and lib = quiet_lib
       and predict = failing_classifier] h1
  have a: "analyze_audio exact_ops 3 16000 quiet_lib (empty_by_librosa 16000) failing_classifier
       = Some (Inr \<lparr>results = [], emotion_changes = [],
            stats = \<lparr>total_duration = 0, emotion_counts = [], emotion_durations = [],
                     emotion_percentages = [], dominant_emotion = ''Unknown''\<rparr>\<rparr>)"
    by blast
  from empty_audio_spec
    [where fp = exact_ops and chunk_duration = 3 and sr = 16000
       and dec = "empty_by_librosa 44100" and osr = 44100 and lib = quiet_lib
       and predict = failing_classifier] h2 h3
  have b: "process_audio exact_ops 3 16000 quiet_lib (empty_by_librosa 44100) = Some (Inr [])"
    by blast
  from empty_audio_spec
    [where fp = exact_ops and chunk_duration = 3 and sr = 16000
       and dec = "empty_by_librosa 44100" and osr = 44100 and lib = strict_lib
       and predict = failing_classifier and e = ValueError] h2 h4 h5
  have c: "analyze_audio exact_ops 3 16000 strict_lib (empty_by_librosa 44100) failing_classifier
       = Some (Inl ValueError)"
    by blast
  from empty_audio_spec
    [where fp = exact_ops and chunk_duration = 3 and sr = 16000
       and dec = "empty_by_pydub 44100" and osr = 44100 and lib = quiet_lib
       and predict = failing_classifier and derr = LibraryError] h6 h7
  have d: "analyze_audio exact_ops 3 16000 quiet_lib (empty_by_pydub 44100) failing_classifier
       = Some (Inl LoadError)"
    by blast
  from h1 h2 h3 h4 h5 h6 h7 a b c d show ?thesis by blast
qed

text \<open>
  The claim as worded fails: at the default configuration a file that librosa reads as
  zero samples at 16000 Hz is split into the empty list of chunks, and the analysis
  returns its answer, with no prediction; nothing is raised.
\<close>

theorem empty_audio_counterexample:
  "split_into_chunks exact_ops 3 16000 [] = Some (Inr [])
   \<and> analyze_audio exact_ops 3 16000 quiet_lib (empty_by_librosa 16000) failing_classifier
       = Some (Inr \<lparr>results = [], emotion_changes = [],
            stats = \<lparr>total_duration = 0, emotion_counts = [], emotion_durations = [],
                     emotion_percentages = [], dominant_emotion = ''Unknown''\<rparr>\<rparr>)"
proof -
  have l: "load_audio exact_ops (empty_by_librosa 16000) = Inr ([], 16000)"
    by (simp add: load_audio_def empty_by_librosa_def)
  have p: "process_audio exact_ops 3 16000 quiet_lib (empty_by_librosa 16000) = Some (Inr [])"
    unfolding process_audio_def l by (simp add: split_empty)
  from p analyze_no_chunks[OF p, of failing_classifier] show ?thesis
    by (simp add: split_empty)
qed

text \<open>
  A tie of the two-decimal rounding. At 16000 Hz the sample 42800 lies at 2.675 s. The
  double quotient lies just below that value and is reported as 2.67, where the exact
  quotient would be reported as 2.68: the reported time is that of the arithmetic the
  program runs on, which is why the arithmetic is a parameter.
\<close>

lemma reported_time_tie:
  "reported_time double_tie_ops 16000 42800 = 267 / 100
   \<and> reported_time exact_ops 16000 42800 = 268 / 100"
  by (simp add: reported_time_def double_tie_ops_def exact_ops_def py_round_def
        round_half_even_def)

lemma returned_chunk_rate:
  assumes ret: "split_into_chunks fp chunk_duration sr audio = Some (Inr chunks)"
    and i: "i < length chunks"
  shows "sr \<noteq> 0"
proof
  assume z: "sr = 0"
  show False
  proof (cases "audio = []")
    case True
    with ret have "chunks = []" by (simp add: split_empty)
    with i show False by simp
  next
    case False
    from split_rate_zero[OF this, of fp chunk_duration] ret z show False by simp
  qed
qed

text \<open>
  C3, as the code has it. With \<open>n = int(chunk_duration * sample_rate) \<ge> 1\<close>, chunk \<open>i\<close>
  covers the samples from \<open>i * n\<close> to \<open>min (i * n + n) total\<close>. It reports as start and end
  the float quotients of these two indices and the sample rate, each rounded to two
  decimals by \<^verbatim>\<open>round\<close>, and as duration the rounded float difference of the two
  quotients. Every chunk but the last spans \<open>n\<close> samples, which last \<open>n / sample_rate\<close>
  seconds, and that is \<open>chunk_duration\<close> when \<open>chunk_duration * sample_rate\<close> is a whole
  number. The last chunk ends at the true end of the audio: it spans between 1 and \<open>n\<close>
  samples, and its reported end and duration are measured, not the configured duration.
\<close>

theorem chunk_times_spec:
  assumes cs: "1 \<le> py_int (f_mul fp chunk_duration (of_int sr))"
    and n: "n = nat (py_int (f_mul fp chunk_duration (of_int sr)))"
    and ret: "split_into_chunks fp chunk_duration sr audio = Some (Inr chunks)"
    and i: "i < length chunks"
  shows "start_time (chunks ! i) = reported_time fp sr (i * n)
    \<and> end_time (chunks ! i) = reported_time fp sr (window_end n audio i)
    \<and> duration (chunks ! i)
        = f_round fp 2 (f_sub fp (f_div fp (real (window_end n audio i)) (of_int sr))
                                 (f_div fp (real (i * n)) (of_int sr)))
    \<and> (Suc i < length chunks \<longrightarrow>
          window_end n audio i = i * n + n
          \<and> real (window_end n audio i) / of_int sr - real (i * n) / of_int sr
              = real n / of_int sr
          \<and> (real n = chunk_duration * of_int sr \<longrightarrow>
               real (window_end n audio i) / of_int sr - real (i * n) / of_int sr
                 = chunk_duration))
    \<and> (Suc i = length chunks \<longrightarrow>
          window_end n audio i = length audio \<and> i * n < length audio
          \<and> length audio \<le> i * n + n)"
proof -
  have npos: "0 < n" using cs n by simp
  have sr: "sr \<noteq> 0" using ret i by (rule returned_chunk_rate)
  have chunks: "chunks = map (window_chunk fp n sr audio) [0..<window_count n audio]"
    using split_windows[OF cs sr, of audio] ret unfolding n by simp
  then have len: "length chunks = window_count n audio" by simp
  have nth: "chunks ! i = window_chunk fp n sr audio i"
    using i unfolding chunks by simp
  have span: "real (window_end n audio i) / of_int sr - real (i * n) / of_int sr
                = real n / of_int sr"
    if "window_end n audio i = i * n + n"
    unfolding that by (simp add: add_divide_distrib)
  have full: "real (window_end n audio i) / of_int sr - real (i * n) / of_int sr = chunk_duration"
    if "window_end n audio i = i * n + n" "real n = chunk_duration * of_int sr"
    using span[OF that(1)] that(2) sr by simp
  show ?thesis
    unfolding nth window_times len
    using window_full[OF npos, of i audio] window_last[OF npos, of i audio] span full
    by blast
qed

theorem chunk_times_spec_witness:
  "1 \<le> py_int (f_mul exact_ops 3 (of_int 16000))
   \<and> (48000 :: nat) = nat (py_int (f_mul exact_ops 3 (of_int 16000)))
   \<and> split_into_chunks exact_ops 3 16000 (replicate 52000 0)
       = Some (Inr (map (window_chunk exact_ops 48000 16000 (replicate 52000 0)) [0..<2]))
   \<and> Suc 1 = length (map (window_chunk exact_ops 48000 16000 (replicate 52000 0)) [0..<2])
   \<and> end_time (map (window_chunk exact_ops 48000 16000 (replicate 52000 0)) [0..<2] ! 1)
       = reported_time exact_ops 16000 (window_end 48000 (replicate 52000 0) 1)
   \<and> window_end 48000 (replicate 52000 (0 :: real)) 1 = length (replicate 52000 (0 :: real))
   \<and> reported_time exact_ops 16000 52000 = 13 / 4
   \<and> Suc 0 < length (map (window_chunk exact_ops 48000 16000 (replicate 52000 0)) [0..<2])
   \<and> real (48000 :: nat) = 3 * of_int 16000
   \<and> real (window_end 48000 (replicate 52000 (0 :: real)) 0) / of_int 16000
         - real (0 * (48000 :: nat)) / of_int 16000 = 3"
proof -
  let ?A = "replicate 52000 (0 :: real)"
  let ?chunks = "map (window_chunk exact_ops 48000 16000 ?A) [0..<2]"
  have cs: "py_int (f_mul exact_ops 3 (of_int 16000)) = 48000"
    by (simp add: py_int_def exact_ops_def)
  have h1: "1 \<le> py_int (f_mul exact_ops 3 (of_int 16000))" unfolding cs by simp
  have h2: "(48000 :: nat) = nat (py_int (f_mul exact_ops 3 (of_int 16000)))" unfolding cs by simp
  have wc: "window_count 48000 ?A = 2" by (simp add: window_count_def)
  have nz: "(16000 :: int) \<noteq> 0" by simp
  have h3: "split_into_chunks exact_ops 3 16000 ?A = Some (Inr ?chunks)"
    using split_windows[OF h1 nz, of ?A] unfolding cs by (simp add: wc)
  have l1: "Suc 1 = length ?chunks" and l0: "Suc 0 < length ?chunks" by simp_all
  have i1: "1 < length ?chunks" by simp
  have i0: "0 < length ?chunks" by simp
  have whole: "real (48000 :: nat) = 3 * of_int 16000" by simp
  have rt: "reported_time exact_ops 16000 52000 = 13 / 4"
    by (simp add: reported_time_def exact_ops_def py_round_def round_half_even_def)
  from chunk_times_spec[OF h1 h2 h3 i1] l1
  have a: "end_time (?chunks ! 1) = reported_time exact_ops 16000 (window_end 48000 ?A 1)"
    "window_end 48000 ?A 1 = length ?A"
    by blast+
  from chunk_times_spec[OF h1 h2 h3 i0] l0 whole
  have b: "real (window_end 48000 ?A 0) / of_int 16000 - real (0 * (48000 :: nat)) / of_int 16000 = 3"
    by blast
  from h1 h2 h3 l1 l0 a b whole rt show ?thesis by blast
qed

text \<open>
  The claim as worded fails: one second of audio at 16000 Hz with the configured duration
  of three seconds is one chunk that reports start 0 and end 1, a second apart and not
  three. Every quotient of this run is exact in double arithmetic.
\<close>

theorem chunk_duration_counterexample:
  "split_into_chunks exact_ops 3 16000 (replicate 16000 (1/2))
     = Some (Inr [\<lparr>audio_data = replicate 16000 (1/2) @ replicate 32000 0, sample_rate = 16000,
                    start_time = 0, end_time = 1, duration = 1\<rparr>])
   \<and> (1 :: real) - 0 \<noteq> 3"
proof -
  have cs: "py_int (f_mul exact_ops 3 (of_int 16000)) = 48000"
    by (simp add: py_int_def exact_ops_def)
  have wc: "window_count 48000 (replicate 16000 (1/2 :: real)) = 1"
    by (simp add: window_count_def)
  have r: "py_round 2 1 = 1" "py_round 2 0 = 0"
    by (simp_all add: py_round_def round_half_even_def)
  have h: "1 \<le> py_int (f_mul exact_ops 3 (of_int 16000))" unfolding cs by simp
  have nz: "(16000 :: int) \<noteq> 0" by simp
  from split_windows[OF h nz, of "replicate 16000 (1/2)"]
  have "split_into_chunks exact_ops 3 16000 (replicate 16000 (1/2))
     = Some (Inr [\<lparr>audio_data = replicate 16000 (1/2) @ replicate 32000 0, sample_rate = 16000,
                    start_time = 0, end_time = 1, duration = 1\<rparr>])"
    unfolding cs
    by (simp add: wc window_chunk_def window_end_def reported_time_def exact_ops_def r)
  then show ?thesis by simp
qed

text \<open>
  C7, as the code has it. The window length is \<open>n = int(chunk_duration * sample_rate)\<close>,
  truncated and not rounded. For a non-empty waveform and \<open>n \<ge> 1\<close> the segmenter returns
  the windows \<open>0, 1, \<dots>\<close> of \<open>n\<close> samples in order, as many as the length divided by \<open>n\<close>
  rounded up: the first starts at sample 0, each further one starts at the sample where
  its predecessor ends, and the last ends at the last sample, so there is neither gap nor
  overlap. The reported times are the float quotients of these sample indices and the
  rate, rounded to two decimals by \<^verbatim>\<open>round\<close>: the first reported start is that of sample
  0, which is 0 as soon as the quotient of 0 and the rounding of 0 are 0, each further
  reported start equals the reported end of the predecessor, and the last reported end is
  the rounded quotient of the total length and the rate. Nothing keeps that rounded
  value from lying above the true duration.
\<close>

theorem segmenter_windows_spec:
  assumes z: "f_mul fp chunk_duration 0 = 0"
    and cs: "1 \<le> py_int (f_mul fp chunk_duration (of_int sr))"
    and n: "n = nat (py_int (f_mul fp chunk_duration (of_int sr)))"
    and ne: "audio \<noteq> []"
  shows "\<exists>chunks. split_into_chunks fp chunk_duration sr audio = Some (Inr chunks)
    \<and> chunks = map (window_chunk fp n sr audio) [0..<window_count n audio]
    \<and> chunks \<noteq> []
    \<and> start_time (chunks ! 0) = reported_time fp sr 0
    \<and> (f_div fp 0 (of_int sr) = 0 \<and> f_round fp 2 0 = 0 \<longrightarrow> start_time (chunks ! 0) = 0)
    \<and> (\<forall>i. Suc i < length chunks \<longrightarrow>
          window_end n audio i = Suc i * n
          \<and> start_time (chunks ! Suc i) = end_time (chunks ! i))
    \<and> window_end n audio (length chunks - 1) = length audio
    \<and> end_time (last chunks) = reported_time fp sr (length audio)"
proof -
  let ?N = "window_count n audio"
  let ?chunks = "map (window_chunk fp n sr audio) [0..<?N]"
  have npos: "0 < n" using cs n by simp
  have sr: "sr \<noteq> 0" using z cs by (rule rate_nonzero)
  have ret: "split_into_chunks fp chunk_duration sr audio = Some (Inr ?chunks)"
    using split_windows[OF cs sr, of audio] unfolding n by simp
  have "0 * n < length audio" using ne by simp
  then have Npos: "0 < ?N" using window_count_gt[OF npos, of 0 audio] by blast
  then have nonempty: "?chunks \<noteq> []" by simp
  have first: "start_time (?chunks ! 0) = reported_time fp sr 0"
    using Npos by (simp add: window_times)
  have first0: "start_time (?chunks ! 0) = 0" if "f_div fp 0 (of_int sr) = 0 \<and> f_round fp 2 0 = 0"
    unfolding first reported_time_def using that by simp
  have chain: "window_end n audio i = Suc i * n
      \<and> start_time (?chunks ! Suc i) = end_time (?chunks ! i)" if "Suc i < length ?chunks" for i
  proof -
    from that have lt: "Suc i < ?N" by simp
    then have we: "window_end n audio i = Suc i * n"
      using window_full[OF npos, of i audio] by simp
    from lt have "start_time (?chunks ! Suc i) = reported_time fp sr (Suc i * n)"
      by (simp add: window_times del: mult_Suc)
    moreover from lt have "end_time (?chunks ! i) = reported_time fp sr (window_end n audio i)"
      by (simp add: window_times)
    ultimately show ?thesis unfolding we by simp
  qed
  have lastc: "last ?chunks = window_chunk fp n sr audio (?N - 1)"
    using Npos by (simp add: last_map last_upt)
  have "Suc (?N - 1) = ?N" using Npos by simp
  from window_last[OF npos this] have we: "window_end n audio (?N - 1) = length audio" by simp
  then have we': "window_end n audio (length ?chunks - 1) = length audio" by simp
  have fin: "end_time (last ?chunks) = reported_time fp sr (length audio)"
    unfolding lastc using we by (simp add: window_times)
  from ret nonempty first first0 chain we' fin show ?thesis by blast
qed

theorem segmenter_windows_spec_witness:
  "f_mul exact_ops 3 0 = 0
   \<and> 1 \<le> py_int (f_mul exact_ops 3 (of_int 16000))
   \<and> (48000 :: nat) = nat (py_int (f_mul exact_ops 3 (of_int 16000)))
   \<and> replicate 52000 (0 :: real) \<noteq> []
   \<and> (\<exists>chunks. split_into_chunks exact_ops 3 16000 (replicate 52000 0) = Some (Inr chunks)
        \<and> chunks = map (window_chunk exact_ops 48000 16000 (replicate 52000 0))
                      [0..<window_count 48000 (replicate 52000 0)]
        \<and> chunks \<noteq> []
        \<and> start_time (chunks ! 0) = 0
        \<and> (\<forall>i. Suc i < length chunks \<longrightarrow>
              window_end 48000 (replicate 52000 (0 :: real)) i = Suc i * 48000
              \<and> start_time (chunks ! Suc i) = end_time (chunks ! i))
        \<and> window_end 48000 (replicate 52000 (0 :: real)) (length chunks - 1)
            = length (replicate 52000 (0 :: real))
        \<and> end_time (last chunks)
            = reported_time exact_ops 16000 (length (replicate 52000 (0 :: real))))"
proof -
  have cs: "py_int (f_mul exact_ops 3 (of_int 16000)) = 48000"
    by (simp add: py_int_def exact_ops_def)
  have h0: "f_mul exact_ops 3 0 = 0" by (simp add: exact_ops_def)
  have h1: "1 \<le> py_int (f_mul exact_ops 3 (of_int 16000))" unfolding cs by simp
  have h2: "(48000 :: nat) = nat (py_int (f_mul exact_ops 3 (of_int 16000)))" unfolding cs by simp
  have h3: "replicate 52000 (0 :: real) \<noteq> []" by simp
  have q: "f_div exact_ops 0 (of_int 16000) = 0 \<and> f_round exact_ops 2 0 = 0"
    by (simp add: exact_ops_def py_round_zero)
  from segmenter_windows_spec[OF h0 h1 h2 h3] q h0 h1 h2 h3 show ?thesis by blast
qed

text \<open>
  The claim as worded fails twice. A configured duration of 1.6 s at 1 Hz gives windows
  of \<open>int(1.6) = 1\<close> sample, not of \<open>round(1.6) = 2\<close>: two samples are two chunks. Six
  samples at 1000 Hz last 0.006 s, and the only chunk reports the end 0.01. Double
  arithmetic reports the same values in both runs.
\<close>

theorem segmenter_windows_counterexample:
  "split_into_chunks exact_ops (8/5) 1 [(1/2), (1/4)]
     = Some (Inr [\<lparr>audio_data = [(1/2)], sample_rate = 1,
                    start_time = 0, end_time = 1, duration = 1\<rparr>,
                  \<lparr>audio_data = [(1/4)], sample_rate = 1,
                    start_time = 1, end_time = 2, duration = 1\<rparr>])
   \<and> split_into_chunks exact_ops 3 1000 [0, 0, 0, 0, 0, 0]
     = Some (Inr [\<lparr>audio_data = [0, 0, 0, 0, 0, 0] @ replicate 2994 0, sample_rate = 1000,
                    start_time = 0, end_time = (1/100), duration = (1/100)\<rparr>])
   \<and> (6 / 1000 :: real) < (1/100)"
proof -
  have cs1: "py_int (f_mul exact_ops (8/5) (of_int 1)) = 1"
    by (simp add: py_int_def exact_ops_def)
  have cs2: "py_int (f_mul exact_ops 3 (of_int 1000)) = 3000"
    by (simp add: py_int_def exact_ops_def)
  have r: "py_round 2 1 = 1" "py_round 2 0 = 0" "py_round 2 2 = 2" "py_round 2 (3 / 500) = 1 / 100"
    by (simp_all add: py_round_def round_half_even_def)
  have a: "1 \<le> py_int (f_mul exact_ops (8/5) (of_int 1))" unfolding cs1 by simp
  have b: "1 \<le> py_int (f_mul exact_ops 3 (of_int 1000))" unfolding cs2 by simp
  have nz: "(1 :: int) \<noteq> 0" "(1000 :: int) \<noteq> 0" by simp_all
  have u: "[0..<2] = [0, 1]" by (simp add: upt_rec)
  have one: "split_into_chunks exact_ops (8/5) 1 [(1/2), (1/4)]
     = Some (Inr [\<lparr>audio_data = [(1/2)], sample_rate = 1,
                    start_time = 0, end_time = 1, duration = 1\<rparr>,
                  \<lparr>audio_data = [(1/4)], sample_rate = 1,
                    start_time = 1, end_time = 2, duration = 1\<rparr>])"
    using split_windows[OF a nz(1), of "[(1/2), (1/4)]"]
    unfolding cs1
    by (simp add: window_count_def u window_chunk_def window_end_def reported_time_def
          exact_ops_def r)
  have two: "split_into_chunks exact_ops 3 1000 [0, 0, 0, 0, 0, 0]
     = Some (Inr [\<lparr>audio_data = [0, 0, 0, 0, 0, 0] @ replicate 2994 0, sample_rate = 1000,
                    start_time = 0, end_time = (1/100), duration = (1/100)\<rparr>])"
    using split_windows[OF b nz(2), of "[0, 0, 0, 0, 0, 0]"]
    unfolding cs2
    by (simp add: window_count_def window_chunk_def window_end_def reported_time_def
          exact_ops_def r)
  from one two show ?thesis by simp
qed

text \<open>
  C10. When \<open>chunk_samples = int(chunk_duration * sample_rate)\<close> is at least 1 the loop
  returns, every chunk it returns carries exactly \<open>chunk_samples\<close> samples, and the last
  one is the rest of the audio followed by zeros. When \<open>chunk_samples\<close> is 0, the
  waveform is not empty and the sample rate is positive (the data model's invariant: at
  rate 0 the first division raises instead), an iteration leaves the position where it
  was and the loop never returns. This holds for every float arithmetic in which the
  product of the duration and 0 is 0, as it is for doubles and in exact arithmetic; there
  \<open>chunk_samples \<ge> 1\<close> excludes the rate 0.
\<close>

theorem split_terminates_spec:
  "(f_mul fp chunk_duration 0 = 0 \<and> 1 \<le> py_int (f_mul fp chunk_duration (of_int sr)) \<longrightarrow>
      (\<exists>chunks. split_into_chunks fp chunk_duration sr audio = Some (Inr chunks)
         \<and> (\<forall>c \<in> set chunks.
               length (audio_data c) = nat (py_int (f_mul fp chunk_duration (of_int sr))))
         \<and> (chunks \<noteq> [] \<longrightarrow>
               audio_data (last chunks)
                 = drop ((length chunks - 1)
                          * nat (py_int (f_mul fp chunk_duration (of_int sr)))) audio
                   @ replicate (length chunks
                                  * nat (py_int (f_mul fp chunk_duration (of_int sr)))
                                 - length audio) 0)))
   \<and> (py_int (f_mul fp chunk_duration (of_int sr)) = 0 \<and> audio \<noteq> [] \<and> 0 < sr \<longrightarrow>
        split_into_chunks fp chunk_duration sr audio = None
        \<and> (\<forall>pos. 0 \<le> pos \<and> pos < int (length audio) \<longrightarrow>
              (\<exists>c. chunk_body fp 0 sr audio pos = Inr (c, pos))))"
proof (intro conjI impI)
  assume h: "f_mul fp chunk_duration 0 = 0 \<and> 1 \<le> py_int (f_mul fp chunk_duration (of_int sr))"
  then have cs: "1 \<le> py_int (f_mul fp chunk_duration (of_int sr))" by simp
  from h have sr: "sr \<noteq> 0" using rate_nonzero[of fp chunk_duration sr] by blast
  let ?n = "nat (py_int (f_mul fp chunk_duration (of_int sr)))"
  let ?N = "window_count ?n audio"
  let ?chunks = "map (window_chunk fp ?n sr audio) [0..<?N]"
  have npos: "0 < ?n" using cs by simp
  have ret: "split_into_chunks fp chunk_duration sr audio = Some (Inr ?chunks)"
    using cs sr by (rule split_windows)
  have payload: "\<forall>c \<in> set ?chunks. length (audio_data c) = ?n"
    by (auto simp: window_payload_length)
  have lastp: "audio_data (last ?chunks)
      = drop ((length ?chunks - 1) * ?n) audio @ replicate (length ?chunks * ?n - length audio) 0"
    if "?chunks \<noteq> []"
  proof -
    from that have Npos: "0 < ?N" by simp
    then have lastc: "last ?chunks = window_chunk fp ?n sr audio (?N - 1)"
      by (simp add: last_map last_upt)
    have "Suc (?N - 1) = ?N" using Npos by simp
    from window_last[OF npos this]
    have we: "window_end ?n audio (?N - 1) = length audio"
      and lo: "(?N - 1) * ?n < length audio" and hi: "length audio \<le> (?N - 1) * ?n + ?n"
      by simp_all
    have tk: "take (length audio - (?N - 1) * ?n) (drop ((?N - 1) * ?n) audio)
                = drop ((?N - 1) * ?n) audio"
      by simp
    have "?N * ?n = (?N - 1) * ?n + ?n"
      using Npos by (metis Suc_diff_1 mult_Suc add.commute)
    then have pad: "?n - length (drop ((?N - 1) * ?n) audio) = ?N * ?n - length audio"
      using lo hi by (simp add: add.commute)
    show ?thesis
      unfolding lastc window_chunk_def Let_def we tk
      using pad by simp
  qed
  from ret payload lastp
  show "\<exists>chunks. split_into_chunks fp chunk_duration sr audio = Some (Inr chunks)
         \<and> (\<forall>c \<in> set chunks.
               length (audio_data c) = nat (py_int (f_mul fp chunk_duration (of_int sr))))
         \<and> (chunks \<noteq> [] \<longrightarrow>
               audio_data (last chunks)
                 = drop ((length chunks - 1)
                          * nat (py_int (f_mul fp chunk_duration (of_int sr)))) audio
                   @ replicate (length chunks
                                  * nat (py_int (f_mul fp chunk_duration (of_int sr)))
                                 - length audio) 0)"
    by blast
next
  assume a: "py_int (f_mul fp chunk_duration (of_int sr)) = 0 \<and> audio \<noteq> [] \<and> 0 < sr"
  show "split_into_chunks fp chunk_duration sr audio = None"
  proof (cases "split_into_chunks fp chunk_duration sr audio")
    case None
    then show ?thesis .
  next
    case (Some y)
    then have "split_loop fp 0 sr audio 0 [] = Some y"
      using a by (simp add: split_into_chunks_def)
    from split_loop_stuck[OF this] a show ?thesis by simp
  qed
  show "\<forall>pos. 0 \<le> pos \<and> pos < int (length audio) \<longrightarrow>
              (\<exists>c. chunk_body fp 0 sr audio pos = Inr (c, pos))"
    using a by (simp add: chunk_body_def Let_def)
qed

theorem split_terminates_spec_witness:
  "f_mul exact_ops 3 0 = 0
   \<and> 1 \<le> py_int (f_mul exact_ops 3 (of_int 16000))
   \<and> (\<exists>chunks. split_into_chunks exact_ops 3 16000 (replicate 52000 0) = Some (Inr chunks)
        \<and> list_all (\<lambda>c. length (audio_data c)
                            = nat (py_int (f_mul exact_ops 3 (of_int 16000)))) chunks
        \<and> chunks \<noteq> [])
   \<and> py_int (f_mul exact_ops 0 (of_int 16000)) = 0 \<and> [1 / 2 :: real] \<noteq> []
   \<and> (0 :: int) < 16000
   \<and> split_into_chunks exact_ops 0 16000 [1 / 2] = None
   \<and> chunk_body exact_ops 0 16000 [1 / 2] 0
       = Inr (\<lparr>audio_data = [], sample_rate = 16000, start_time = 0, end_time = 0,
                duration = 0\<rparr>, 0)"
proof -
  have cs: "py_int (f_mul exact_ops 3 (of_int 16000)) = 48000"
    by (simp add: py_int_def exact_ops_def)
  have h0: "f_mul exact_ops 3 0 = 0" by (simp add: exact_ops_def)
  have h1: "1 \<le> py_int (f_mul exact_ops 3 (of_int 16000))" unfolding cs by simp
  have nz: "(16000 :: int) \<noteq> 0" by simp
  have wc: "window_count 48000 (replicate 52000 (0 :: real)) = 2" by (simp add: window_count_def)
  have "split_into_chunks exact_ops 3 16000 (replicate 52000 0)
      = Some (Inr (map (window_chunk exact_ops 48000 16000 (replicate 52000 0)) [0..<2]))"
    using split_windows[OF h1 nz, of "replicate 52000 0"] unfolding cs by (simp add: wc)
  then have nonempty:
    "\<forall>chunks. split_into_chunks exact_ops 3 16000 (replicate 52000 0) = Some (Inr chunks)
      \<longrightarrow> chunks \<noteq> []"
    by auto
  from split_terminates_spec[of exact_ops 3 16000 "replicate 52000 0"] h0 h1 nonempty
  have a: "\<exists>chunks. split_into_chunks exact_ops 3 16000 (replicate 52000 0) = Some (Inr chunks)
        \<and> list_all (\<lambda>c. length (audio_data c)
                            = nat (py_int (f_mul exact_ops 3 (of_int 16000)))) chunks
        \<and> chunks \<noteq> []"
    unfolding list_all_iff by blast
  have z: "py_int (f_mul exact_ops 0 (of_int 16000)) = 0"
    by (simp add: py_int_def exact_ops_def)
  from split_terminates_spec[of exact_ops 0 16000 "[1 / 2]"] z
  have b: "split_into_chunks exact_ops 0 16000 [1 / 2] = None" by simp
  have c: "chunk_body exact_ops 0 16000 [1 / 2] 0
       = Inr (\<lparr>audio_data = [], sample_rate = 16000, start_time = 0, end_time = 0,
                duration = 0\<rparr>, 0)"
    by (simp add: chunk_body_def Let_def py_slice_def slice_index_def py_round_zero
          exact_ops_def)
  from h0 h1 a z b c show ?thesis by simp
qed

subsection \<open>Classification\<close>

lemma init_fallback:
  "init_scores fallback_emotions
     = [(''neutral'', 0), (''happy'', 0), (''sad'', 0), (''angry'', 0), (''fearful'', 0),
        (''surprised'', 0)]"
  by (simp add: init_scores_def dict_of_def fallback_emotions_def)

lemma init_model:
  "init_scores model_emotions
     = [(''angry'', 0), (''calm'', 0), (''disgust'', 0), (''fearful'', 0), (''happy'', 0),
        (''neutral'', 0), (''sad'', 0), (''surprised'', 0)]"
  by (simp add: init_scores_def dict_of_def model_emotions_def)

lemma rule_scores_fallback_table:
  "rule_scores fallback_emotions f = map (\<lambda>l. (l, table_scores f l)) fallback_emotions"
proof -
  consider (hi_var) "1 / 2 < energy f" "50 < pitch_std f"
    | (hi_flat) "1 / 2 < energy f" "pitch_std f \<le> 50"
    | (lo_low) "energy f \<le> 1 / 2" "energy f < 2 / 10" "pitch_mean f < 150"
    | (lo_high) "energy f \<le> 1 / 2" "energy f < 2 / 10" "150 \<le> pitch_mean f"
    | (mid_zc) "energy f \<le> 1 / 2" "2 / 10 \<le> energy f" "1 / 10 < zero_crossing_rate f"
    | (mid) "energy f \<le> 1 / 2" "2 / 10 \<le> energy f" "zero_crossing_rate f \<le> 1 / 10"
    by linarith
  then show ?thesis
  proof cases
    case hi_var
    then show ?thesis
      by (simp add: rule_scores_def table_scores_def init_fallback) (simp add: fallback_emotions_def)
  next
    case hi_flat
    then show ?thesis
      by (simp add: rule_scores_def table_scores_def init_fallback) (simp add: fallback_emotions_def)
  next
    case lo_low
    then show ?thesis
      by (simp add: rule_scores_def table_scores_def init_fallback) (simp add: fallback_emotions_def)
  next
    case lo_high
    then show ?thesis
      by (simp add: rule_scores_def table_scores_def init_fallback) (simp add: fallback_emotions_def)
  next
    case mid_zc
    then show ?thesis
      by (simp add: rule_scores_def table_scores_def init_fallback) (simp add: fallback_emotions_def)
  next
    case mid
    then show ?thesis
      by (simp add: rule_scores_def table_scores_def init_fallback) (simp add: fallback_emotions_def)
  qed
qed

lemma rule_scores_model_table:
  "rule_scores model_emotions f = map (\<lambda>l. (l, table_scores f l)) model_emotions"
proof -
  consider (hi_var) "1 / 2 < energy f" "50 < pitch_std f"
    | (hi_flat) "1 / 2 < energy f" "pitch_std f \<le> 50"
    | (lo_low) "energy f \<le> 1 / 2" "energy f < 2 / 10" "pitch_mean f < 150"
    | (lo_high) "energy f \<le> 1 / 2" "energy f < 2 / 10" "150 \<le> pitch_mean f"
    | (mid_zc) "energy f \<le> 1 / 2" "2 / 10 \<le> energy f" "1 / 10 < zero_crossing_rate f"
    | (mid) "energy f \<le> 1 / 2" "2 / 10 \<le> energy f" "zero_crossing_rate f \<le> 1 / 10"
    by linarith
  then show ?thesis
  proof cases
    case hi_var
    then show ?thesis
      by (simp add: rule_scores_def table_scores_def init_model) (simp add: model_emotions_def)
  next
    case hi_flat
    then show ?thesis
      by (simp add: rule_scores_def table_scores_def init_model) (simp add: model_emotions_def)
  next
    case lo_low
    then show ?thesis
      by (simp add: rule_scores_def table_scores_def init_model) (simp add: model_emotions_def)
  next
    case lo_high
    then show ?thesis
      by (simp add: rule_scores_def table_scores_def init_model) (simp add: model_emotions_def)
  next
    case mid_zc
    then show ?thesis
      by (simp add: rule_scores_def table_scores_def init_model) (simp add: model_emotions_def)
  next
    case mid
    then show ?thesis
      by (simp add: rule_scores_def table_scores_def init_model) (simp add: model_emotions_def)
  qed
qed

lemma table_scores_nonneg: "0 \<le> table_scores f l"
  by (simp add: table_scores_def)

lemma table_sum_cases:
  "table_sum f = 7 / 10 \<or> table_sum f = 5 / 10 \<or> table_sum f = 6 / 10
   \<or> table_sum f = 8 / 10 \<or> table_sum f = 4 / 10"
  by (simp add: table_sum_def table_scores_def fallback_emotions_def)

lemma table_sum_pos: "0 < table_sum f"
  using table_sum_cases[of f] by auto

lemma table_sum_model: "sum_list (map (table_scores f) model_emotions) = table_sum f"
  by (simp add: table_sum_def table_scores_def fallback_emotions_def model_emotions_def)

lemma sum_list_divide: "sum_list (map (\<lambda>x. g x / c) xs) = sum_list (map g xs) / (c :: real)"
  by (induction xs) (simp_all add: add_divide_distrib)

lemma normalize_table:
  assumes "sum_list (map (table_scores f) ems) = table_sum f"
  shows "normalize_scores (map (\<lambda>l. (l, table_scores f l)) ems)
           = map (\<lambda>l. (l, table_scores f l / table_sum f)) ems"
proof -
  have "map snd (map (\<lambda>l. (l, table_scores f l)) ems) = map (table_scores f) ems"
    by (simp add: comp_def)
  then have "sum_list (map snd (map (\<lambda>l. (l, table_scores f l)) ems)) = table_sum f"
    using assms by (simp only:)
  then show ?thesis
    unfolding normalize_scores_def Let_def using table_sum_pos[of f]
    by (simp add: comp_def)
qed

lemma py_max_key_member: "py_max_key key xs = Some x \<Longrightarrow> x \<in> set xs"
  using py_max_key_first_argmax[of key xs x] unfolding first_argmax_def by auto

lemma classify_features_result:
  assumes sc: "normalize_scores (rule_scores ems f) = sc"
    and ne: "sc \<noteq> []" and dist: "distinct (map fst sc)"
  shows "\<exists>kv. py_max_key snd sc = Some kv \<and> first_argmax snd sc kv
          \<and> map_of sc (fst kv) = Some (snd kv)
          \<and> classify_features ems f
              = Inr \<lparr>emotion = fst kv, confidence = py_round 4 (snd kv), scores = sc\<rparr>"
proof -
  from ne obtain kv where kv: "py_max_key snd sc = Some kv" by (cases sc) auto
  then have am: "first_argmax snd sc kv" by (rule py_max_key_first_argmax)
  from kv have "kv \<in> set sc" by (rule py_max_key_member)
  then have "(fst kv, snd kv) \<in> set sc" by simp
  with dist have look: "map_of sc (fst kv) = Some (snd kv)" by (simp only: map_of_eq_Some_iff)
  have "classify_features ems f
      = Inr \<lparr>emotion = fst kv, confidence = py_round 4 (snd kv), scores = sc\<rparr>"
    unfolding classify_features_def Let_def sc by (simp add: kv look)
  with kv am look show ?thesis by blast
qed

lemma classify_table:
  assumes ems: "ems = fallback_emotions \<or> ems = model_emotions"
  shows "\<exists>kv. first_argmax snd (map (\<lambda>l. (l, table_scores f l / table_sum f)) ems) kv
     \<and> map_of (map (\<lambda>l. (l, table_scores f l / table_sum f)) ems) (fst kv) = Some (snd kv)
     \<and> classify_features ems f
         = Inr \<lparr>emotion = fst kv, confidence = py_round 4 (snd kv),
                scores = map (\<lambda>l. (l, table_scores f l / table_sum f)) ems\<rparr>"
proof -
  let ?sc = "map (\<lambda>l. (l, table_scores f l / table_sum f)) ems"
  have rs: "rule_scores ems f = map (\<lambda>l. (l, table_scores f l)) ems"
    using ems rule_scores_fallback_table rule_scores_model_table by blast
  have sm: "sum_list (map (table_scores f) ems) = table_sum f"
    using ems table_sum_model[of f] by (auto simp: table_sum_def)
  have n: "normalize_scores (rule_scores ems f) = ?sc"
    unfolding rs using sm by (rule normalize_table)
  have keys: "map fst ?sc = ems" by (simp add: comp_def)
  have ne: "?sc \<noteq> []" using ems by (auto simp: fallback_emotions_def model_emotions_def)
  have "distinct ems" using ems by (auto simp: fallback_emotions_def model_emotions_def)
  then have dist: "distinct (map fst ?sc)" unfolding keys .
  from classify_features_result[OF n ne dist] show ?thesis by blast
qed

lemma py_round_one: "py_round n 1 = 1"
  using py_round_whole[of n 1] by simp

lemma example_classified:
  assumes "energy f = 6 / 10" "pitch_std f = 60" "pitch_mean f = 100"
    "zero_crossing_rate f = 5 / 100"
  shows "classify_features fallback_emotions f
     = Inr \<lparr>emotion = ''angry'', confidence = py_round 4 (4 / 7),
            scores = [(''neutral'', 0), (''happy'', 0), (''sad'', 0), (''angry'', 4 / 7),
                      (''fearful'', 0), (''surprised'', 3 / 7)]\<rparr>"
proof -
  have rs: "rule_scores fallback_emotions f
      = [(''neutral'', 0), (''happy'', 0), (''sad'', 0), (''angry'', 4 / 10),
         (''fearful'', 0), (''surprised'', 3 / 10)]"
    using assms by (simp add: rule_scores_def init_fallback)
  have ns: "normalize_scores (rule_scores fallback_emotions f)
      = [(''neutral'', 0), (''happy'', 0), (''sad'', 0), (''angry'', 4 / 7),
         (''fearful'', 0), (''surprised'', 3 / 7)]"
    unfolding rs by (simp add: normalize_scores_def)
  show ?thesis
    unfolding classify_features_def Let_def ns by simp
qed

text \<open>
  C5. For every feature vector the unnormalised scores of the rule-based classifier are
  those of the decision table, first matching row winning, over the six fallback labels;
  the returned scores are the table's divided by their sum, and the label is a first
  arg-max of them. For energy 0.6, pitch_std 60, pitch_mean 100 and zero-crossing rate 0.05
  the label is angry, with probability 0.4/0.7 for angry and 0.3/0.7 for surprised.
\<close>

theorem rule_classifier_table_spec:
  "rule_scores fallback_emotions f = map (\<lambda>l. (l, table_scores f l)) fallback_emotions
   \<and> (\<exists>kv. first_argmax snd (map (\<lambda>l. (l, table_scores f l / table_sum f)) fallback_emotions) kv
        \<and> classify_features fallback_emotions f
            = Inr \<lparr>emotion = fst kv, confidence = py_round 4 (snd kv),
                   scores = map (\<lambda>l. (l, table_scores f l / table_sum f)) fallback_emotions\<rparr>)
   \<and> (energy f = 6 / 10 \<and> pitch_std f = 60 \<and> pitch_mean f = 100
        \<and> zero_crossing_rate f = 5 / 100 \<longrightarrow>
        (\<exists>p. classify_features fallback_emotions f = Inr p \<and> emotion p = ''angry''
           \<and> map_of (scores p) ''angry'' = Some ((4 / 10) / (7 / 10))
           \<and> map_of (scores p) ''surprised'' = Some ((3 / 10) / (7 / 10))))"
proof (intro conjI impI)
  show "rule_scores fallback_emotions f = map (\<lambda>l. (l, table_scores f l)) fallback_emotions"
    by (rule rule_scores_fallback_table)
  show "\<exists>kv. first_argmax snd (map (\<lambda>l. (l, table_scores f l / table_sum f)) fallback_emotions) kv
        \<and> classify_features fallback_emotions f
            = Inr \<lparr>emotion = fst kv, confidence = py_round 4 (snd kv),
                   scores = map (\<lambda>l. (l, table_scores f l / table_sum f)) fallback_emotions\<rparr>"
    using classify_table[of fallback_emotions f] by blast
next
  assume "energy f = 6 / 10 \<and> pitch_std f = 60 \<and> pitch_mean f = 100
        \<and> zero_crossing_rate f = 5 / 100"
  then have "classify_features fallback_emotions f
     = Inr \<lparr>emotion = ''angry'', confidence = py_round 4 (4 / 7),
            scores = [(''neutral'', 0), (''happy'', 0), (''sad'', 0), (''angry'', 4 / 7),
                      (''fearful'', 0), (''surprised'', 3 / 7)]\<rparr>"
    using example_classified[of f] by blast
  then show "\<exists>p. classify_features fallback_emotions f = Inr p \<and> emotion p = ''angry''
           \<and> map_of (scores p) ''angry'' = Some ((4 / 10) / (7 / 10))
           \<and> map_of (scores p) ''surprised'' = Some ((3 / 10) / (7 / 10))"
    by simp
qed

theorem rule_classifier_table_spec_witness:
  "energy angry_features = 6 / 10 \<and> pitch_std angry_features = 60
   \<and> pitch_mean angry_features = 100 \<and> zero_crossing_rate angry_features = 5 / 100
   \<and> (\<exists>p. classify_features fallback_emotions angry_features = Inr p \<and> emotion p = ''angry''
        \<and> map_of (scores p) ''angry'' = Some ((4 / 10) / (7 / 10))
        \<and> map_of (scores p) ''surprised'' = Some ((3 / 10) / (7 / 10)))"
proof -
  have h: "energy angry_features = 6 / 10 \<and> pitch_std angry_features = 60
      \<and> pitch_mean angry_features = 100 \<and> zero_crossing_rate angry_features = 5 / 100"
    by (simp add: angry_features_def)
  with rule_classifier_table_spec[of angry_features] show ?thesis by blast
qed

lemma normalize_guard:
  assumes "sum_list (map snd sc) = 0"
  shows "normalize_scores sc = AList.update ''neutral'' 1 sc"
  using assms by (simp add: normalize_scores_def)

text \<open>
  C6. For every feature vector, and for either label list a detector can hold, the
  distribution returned by the rule-based classifier has no negative entry and sums to 1
  (in the reals, so within 1e-6); and whenever the scores before normalisation sum to 0,
  the guard of the normalisation sets neutral to 1.0.
\<close>

theorem rule_classifier_distribution_spec:
  "(ems = fallback_emotions \<or> ems = model_emotions \<longrightarrow>
      (\<exists>p. classify_features ems f = Inr p
         \<and> list_all (\<lambda>kv. 0 \<le> snd kv) (scores p)
         \<and> sum_list (map snd (scores p)) = 1
         \<and> \<bar>sum_list (map snd (scores p)) - 1\<bar> \<le> 1 / 1000000))
   \<and> (sum_list (map snd sc) = 0 \<longrightarrow> normalize_scores sc = AList.update ''neutral'' 1 sc)"
proof (intro conjI impI)
  assume ems: "ems = fallback_emotions \<or> ems = model_emotions"
  let ?sc = "map (\<lambda>l. (l, table_scores f l / table_sum f)) ems"
  from classify_table[OF ems, of f] obtain kv where
    c: "classify_features ems f
         = Inr \<lparr>emotion = fst kv, confidence = py_round 4 (snd kv), scores = ?sc\<rparr>"
    by blast
  have nonneg: "list_all (\<lambda>kv. 0 \<le> snd kv) ?sc"
    using table_scores_nonneg table_sum_pos[of f] by (simp add: list_all_iff)
  have sm: "sum_list (map (table_scores f) ems) = table_sum f"
    using ems table_sum_model[of f] by (auto simp: table_sum_def)
  have "map snd ?sc = map (\<lambda>l. table_scores f l / table_sum f) ems"
    by (simp add: comp_def)
  then have "sum_list (map snd ?sc) = sum_list (map (table_scores f) ems) / table_sum f"
    by (simp only: sum_list_divide)
  then have one: "sum_list (map snd ?sc) = 1"
    unfolding sm using table_sum_pos[of f] by simp
  from c nonneg one
  show "\<exists>p. classify_features ems f = Inr p
         \<and> list_all (\<lambda>kv. 0 \<le> snd kv) (scores p)
         \<and> sum_list (map snd (scores p)) = 1
         \<and> \<bar>sum_list (map snd (scores p)) - 1\<bar> \<le> 1 / 1000000"
    by simp
next
  assume "sum_list (map snd sc) = 0"
  then show "normalize_scores sc = AList.update ''neutral'' 1 sc"
    by (rule normalize_guard)
qed

theorem rule_classifier_distribution_spec_witness:
  "fallback_emotions = fallback_emotions
   \<and> (\<exists>p. classify_features fallback_emotions angry_features = Inr p
        \<and> list_all (\<lambda>kv. 0 \<le> snd kv) (scores p)
        \<and> sum_list (map snd (scores p)) = 1)
   \<and> sum_list (map snd [(''neutral'', 0 :: real), (''happy'', 0)]) = 0
   \<and> normalize_scores [(''neutral'', 0), (''happy'', 0)] = [(''neutral'', 1), (''happy'', 0)]"
proof -
  have z: "sum_list (map snd [(''neutral'', 0 :: real), (''happy'', 0)]) = 0" by simp
  from rule_classifier_distribution_spec
    [of fallback_emotions angry_features "[(''neutral'', 0), (''happy'', 0)]"] z
  have a: "\<exists>p. classify_features fallback_emotions angry_features = Inr p
        \<and> list_all (\<lambda>kv. 0 \<le> snd kv) (scores p)
        \<and> sum_list (map snd (scores p)) = 1"
    and b: "normalize_scores [(''neutral'', 0), (''happy'', 0)]
        = AList.update ''neutral'' 1 [(''neutral'', 0), (''happy'', 0)]"
    by blast+
  from a b z show ?thesis by simp
qed

lemma classify_silence:
  "classify_features fallback_emotions zero_features
     = Inr \<lparr>emotion = ''sad'', confidence = 1,
            scores = [(''neutral'', 0), (''happy'', 0), (''sad'', 1), (''angry'', 0),
                      (''fearful'', 0), (''surprised'', 0)]\<rparr>"
proof -
  have rs: "rule_scores fallback_emotions zero_features
      = [(''neutral'', 0), (''happy'', 0), (''sad'', 6 / 10), (''angry'', 0),
         (''fearful'', 0), (''surprised'', 0)]"
    by (simp add: rule_scores_def init_fallback zero_features_def)
  have ns: "normalize_scores (rule_scores fallback_emotions zero_features)
      = [(''neutral'', 0), (''happy'', 0), (''sad'', 1), (''angry'', 0),
         (''fearful'', 0), (''surprised'', 0)]"
    unfolding rs by (simp add: normalize_scores_def)
  show ?thesis
    unfolding classify_features_def Let_def ns by (simp add: py_round_one)
qed

lemma mean_of_zeros: "list_all (\<lambda>z. z = 0) frames \<Longrightarrow> np_mean frames = 0"
proof -
  assume "list_all (\<lambda>z. z = 0) frames"
  then have "sum_list frames = 0" by (induction frames) simp_all
  then show ?thesis by (simp add: np_mean_def)
qed

lemma no_voiced_frame:
  assumes "list_all (list_all (\<lambda>pm. fst pm \<le> 0)) tracked"
  shows "pitch_values tracked = Inr [] \<or> (\<exists>e. pitch_values tracked = Inl e)"
  using assms
proof (induction tracked)
  case Nil
  show ?case by simp
next
  case (Cons frame frames)
  then have rest: "pitch_values frames = Inr [] \<or> (\<exists>e. pitch_values frames = Inl e)"
    and here: "list_all (\<lambda>pm. fst pm \<le> 0) frame"
    by simp_all
  show ?case
  proof (cases "py_max_key snd frame")
    case None
    then show ?thesis by simp
  next
    case (Some pm)
    then have "pm \<in> set frame" by (rule py_max_key_member)
    with here have "fst pm \<le> 0" by (simp add: list_all_iff)
    then have "\<not> 0 < fst pm" by simp
    with Some rest show ?thesis
      by (cases pm) (auto split: sum.splits)
  qed
qed

lemma extract_silence:
  assumes n: "0 < n"
    and zc: "lib_zcr lib (replicate n 0) = Inr frames" "frames \<noteq> []"
            "list_all (\<lambda>z. z = 0) frames"
    and pt: "case lib_piptrack lib (replicate n 0) sr of
               Inl e \<Rightarrow> True
             | Inr tracked \<Rightarrow> list_all (list_all (\<lambda>pm. fst pm \<le> 0)) tracked"
  shows "extract_features lib (replicate n 0) sr = Inr zero_features"
proof -
  have ne: "replicate n (0 :: real) \<noteq> []" using n by simp
  have pitch: "(case lib_piptrack lib (replicate n 0) sr of
                  Inl err \<Rightarrow> (0, 0)
                | Inr tracked \<Rightarrow>
                    (case pitch_values tracked of
                       Inl err \<Rightarrow> (0, 0)
                     | Inr vs \<Rightarrow>
                         (if vs \<noteq> [] then np_mean vs else 0,
                          if vs \<noteq> [] then np_std vs else 0))) = (0 :: real, 0 :: real)"
  proof (cases "lib_piptrack lib (replicate n 0) sr")
    case (Inl e)
    then show ?thesis by simp
  next
    case (Inr tracked)
    with pt have "list_all (list_all (\<lambda>pm. fst pm \<le> 0)) tracked" by simp
    from no_voiced_frame[OF this] Inr show ?thesis by auto
  qed
  show ?thesis
    unfolding extract_features_def Let_def pitch
    using ne zc by (simp add: sum_list_replicate mean_of_zeros zero_features_def)
qed

text \<open>
  C1, as the code has it. For an all-zero chunk of positive length the energy is 0; when
  the library reports the zero-crossing rate 0 in every frame and no positive pitch (or
  the pitch tracker raises), feature extraction returns the zero vector. The rule-based
  classifier applied to that vector takes the row of the table for energy below 0.2 and
  mean pitch below 150: it returns the single-label unit distribution on sad, with
  emotion sad and confidence 1.0. The guard that sets neutral to 1.0 is not reached.
\<close>

theorem silent_chunk_spec:
  assumes "0 < n"
    and "lib_zcr lib (replicate n 0) = Inr frames" "frames \<noteq> []"
        "list_all (\<lambda>z. z = 0) frames"
    and "case lib_piptrack lib (replicate n 0) sr of
           Inl e \<Rightarrow> True
         | Inr tracked \<Rightarrow> list_all (list_all (\<lambda>pm. fst pm \<le> 0)) tracked"
  shows "extract_features lib (replicate n 0) sr = Inr zero_features
    \<and> classify_features fallback_emotions zero_features
        = Inr \<lparr>emotion = ''sad'', confidence = 1,
               scores = [(''neutral'', 0), (''happy'', 0), (''sad'', 1), (''angry'', 0),
                         (''fearful'', 0), (''surprised'', 0)]\<rparr>
    \<and> predict_with_features fallback_emotions lib (replicate n 0) sr
        = Inr \<lparr>emotion = ''sad'', confidence = 1,
               scores = [(''neutral'', 0), (''happy'', 0), (''sad'', 1), (''angry'', 0),
                         (''fearful'', 0), (''surprised'', 0)]\<rparr>"
proof -
  have ex: "extract_features lib (replicate n 0) sr = Inr zero_features"
    using assms by (rule extract_silence)
  then show ?thesis
    by (simp add: predict_with_features_def classify_silence)
qed

theorem silent_chunk_spec_witness:
  "(0 :: nat) < 3
   \<and> lib_zcr quiet_lib (replicate 3 0) = Inr [0]
   \<and> [0 :: real] \<noteq> []
   \<and> list_all (\<lambda>z. z = 0) [0 :: real]
   \<and> (case lib_piptrack quiet_lib (replicate 3 0) 16000 of
         Inl e \<Rightarrow> True
       | Inr tracked \<Rightarrow> list_all (list_all (\<lambda>pm. fst pm \<le> 0)) tracked)
   \<and> extract_features quiet_lib (replicate 3 0) 16000 = Inr zero_features
   \<and> predict_with_features fallback_emotions quiet_lib (replicate 3 0) 16000
       = Inr \<lparr>emotion = ''sad'', confidence = 1,
              scores = [(''neutral'', 0), (''happy'', 0), (''sad'', 1), (''angry'', 0),
                        (''fearful'', 0), (''surprised'', 0)]\<rparr>"
proof -
  have h1: "(0 :: nat) < 3" by simp
  have h2: "lib_zcr quiet_lib (replicate 3 0) = Inr [0]" by (simp add: quiet_lib_def)
  have h3: "[0 :: real] \<noteq> []" by simp
  have h4: "list_all (\<lambda>z. z = 0) [0 :: real]" by simp
  have h5: "case lib_piptrack quiet_lib (replicate 3 0) 16000 of
         Inl e \<Rightarrow> True
       | Inr tracked \<Rightarrow> list_all (list_all (\<lambda>pm. fst pm \<le> 0)) tracked"
    by (simp add: quiet_lib_def)
  from silent_chunk_spec[OF h1 h2 h3 h4 h5] h1 h2 h3 h4 h5 show ?thesis by blast
qed

text \<open>
  The claim as worded fails: the rule-based classifier labels the zero feature vector
  sad, not neutral.
\<close>

theorem silent_chunk_counterexample:
  "classify_features fallback_emotions zero_features
     = Inr \<lparr>emotion = ''sad'', confidence = 1,
            scores = [(''neutral'', 0), (''happy'', 0), (''sad'', 1), (''angry'', 0),
                      (''fearful'', 0), (''surprised'', 0)]\<rparr>
   \<and> ''sad'' \<noteq> ''neutral''"
  by (simp add: classify_silence)

lemma update_new_key: "k \<notin> fst ` set d \<Longrightarrow> AList.update k v d = d @ [(k, v)]"
  by (induction d) auto

lemma fold_update_distinct:
  "distinct (map fst d @ map fst kvs) \<Longrightarrow>
     fold (\<lambda>(k, v) d. AList.update k v d) kvs d = d @ kvs"
proof (induction kvs arbitrary: d)
  case Nil
  show ?case by simp
next
  case (Cons kv kvs)
  obtain k v where kv: "kv = (k, v)" by (cases kv)
  from Cons.prems have new: "k \<notin> fst ` set d" unfolding kv by auto
  from Cons.prems have "distinct (map fst (d @ [(k, v)]) @ map fst kvs)" unfolding kv by auto
  from Cons.IH[OF this] show ?case
    unfolding kv by (simp add: update_new_key[OF new])
qed

lemma dict_of_distinct: "distinct (map fst kvs) \<Longrightarrow> dict_of kvs = kvs"
  unfolding dict_of_def using fold_update_distinct[of "[]" kvs] by simp

lemma np_argmax_first:
  assumes "np_argmax xs = Some i"
  shows "i < length xs \<and> (\<forall>j < length xs. xs ! j \<le> xs ! i) \<and> (\<forall>j < i. xs ! j < xs ! i)"
proof -
  let ?ixs = "zip [0..<length xs] xs"
  from assms obtain kv where kv: "py_max_key snd ?ixs = Some kv" and i: "fst kv = i"
    unfolding np_argmax_def by auto
  from py_max_key_first_argmax[OF kv] obtain k where k: "k < length ?ixs" "?ixs ! k = kv"
    and mx: "\<forall>j < length ?ixs. snd (?ixs ! j) \<le> snd kv"
    and fs: "\<forall>j < k. snd (?ixs ! j) < snd kv"
    unfolding first_argmax_def by blast
  have len: "length ?ixs = length xs" by simp
  have nth: "?ixs ! j = (j, xs ! j)" if "j < length xs" for j using that by simp
  from k len have kl: "k < length xs" by simp
  from k(2) nth[OF kl] i have ki: "k = i" and v: "snd kv = xs ! i" by auto
  have a: "\<forall>j < length xs. xs ! j \<le> xs ! i"
    using mx nth len v by simp
  have b: "\<forall>j < i. xs ! j < xs ! i"
  proof (intro allI impI)
    fix j assume "j < i"
    then have jk: "j < k" and jl: "j < length xs" using ki kl by simp_all
    from fs jk have "snd (?ixs ! j) < snd kv" by blast
    then show "xs ! j < xs ! i" unfolding nth[OF jl] v by simp
  qed
  from kl ki a b show ?thesis by simp
qed

lemma model_branch:
  assumes dist: "distinct ems" and i: "i < length ems" and am: "np_argmax probs = Some i"
  shows "argmax_prediction ems
           \<lparr>emotion = ems ! i, confidence = py_round 4 (probs ! i),
            scores = dict_of (zip ems probs)\<rparr>"
proof -
  let ?sc = "zip ems probs"
  from np_argmax_first[OF am] have ip: "i < length probs"
    and mx: "\<forall>j < length probs. probs ! j \<le> probs ! i"
    and fs: "\<forall>j < i. probs ! j < probs ! i"
    by simp_all
  have keys: "map fst ?sc = take (length ?sc) ems"
    by (simp add: map_fst_zip_take min.commute)
  have "distinct (take (length ?sc) ems)" using dist by simp
  then have dk: "distinct (map fst ?sc)" unfolding keys .
  then have d: "dict_of ?sc = ?sc" by (rule dict_of_distinct)
  have il: "i < length ?sc" using i ip by simp
  have nth: "?sc ! j = (ems ! j, probs ! j)" if "j < length ?sc" for j using that by simp
  have fa: "first_argmax snd ?sc (ems ! i, probs ! i)"
    unfolding first_argmax_def
  proof (intro exI[of _ i] conjI allI impI)
    show "i < length ?sc" by (rule il)
    show "?sc ! i = (ems ! i, probs ! i)" using il by (rule nth)
  next
    fix j assume j: "j < length ?sc"
    then have "j < length probs" by simp
    with mx nth[OF j] show "snd (?sc ! j) \<le> snd (ems ! i, probs ! i)" by simp
  next
    fix j assume j: "j < i"
    then have "j < length ?sc" using il by simp
    from nth[OF this] fs j show "snd (?sc ! j) < snd (ems ! i, probs ! i)" by simp
  qed
  have "(ems ! i, probs ! i) \<in> set ?sc" using il nth[OF il] by (metis nth_mem)
  with dk have look: "map_of ?sc (ems ! i) = Some (probs ! i)" by (simp only: map_of_eq_Some_iff)
  show ?thesis
    unfolding argmax_prediction_def d using fa look keys by simp
qed

lemma feature_branch:
  assumes ems: "ems = fallback_emotions \<or> ems = model_emotions"
    and ret: "predict_with_features ems lib a s = Inr p"
  shows "argmax_prediction ems p"
proof -
  from ret obtain f where c: "classify_features ems f = Inr p"
    unfolding predict_with_features_def by (auto split: sum.splits)
  let ?sc = "map (\<lambda>l. (l, table_scores f l / table_sum f)) ems"
  from classify_table[OF ems, of f] c obtain kv where
    fa: "first_argmax snd ?sc kv" and look: "map_of ?sc (fst kv) = Some (snd kv)"
    and p: "p = \<lparr>emotion = fst kv, confidence = py_round 4 (snd kv), scores = ?sc\<rparr>"
    by auto
  have keys: "map fst ?sc = take (length ?sc) ems" by (simp add: comp_def)
  show ?thesis
    unfolding argmax_prediction_def p using fa look keys by simp
qed

lemma model_path:
  assumes ems: "ems = fallback_emotions \<or> ems = model_emotions"
    and ret: "predict_with_model ems lib infer audio sr = Inr p"
  shows "argmax_prediction ems p"
proof -
  have dist: "distinct ems"
    using ems by (auto simp: fallback_emotions_def model_emotions_def)
  note fb = feature_branch[OF ems]
  note mb = model_branch[OF dist]
  from ret show ?thesis
    unfolding predict_with_model_def
    by (auto split: sum.splits option.splits if_splits prod.splits dest: fb intro: mb)
qed

lemma py_round_4_7: "py_round 4 (4 / 7) = 5714 / 10000"
  by (simp add: py_round_def round_half_even_def)

lemma py_round_half: "py_round 4 (1 / 2) = 1 / 2"
  by (simp add: py_round_def round_half_even_def)

lemma py_round_3_5: "py_round 4 (3 / 5) = 3 / 5"
  by (simp add: py_round_def round_half_even_def)

lemma tie_features:
  "extract_features noisy_lib [1 / 2] 16000
     = Inr \<lparr>energy = 1 / 4, zero_crossing_rate = 1 / 5, pitch_mean = 0, pitch_std = 0\<rparr>"
  by (simp add: extract_features_def noisy_lib_def np_mean_def power2_eq_square)

lemma tie_classified:
  "classify_features model_emotions
      \<lparr>energy = 1 / 4, zero_crossing_rate = 1 / 5, pitch_mean = 0, pitch_std = 0\<rparr>
     = Inr \<lparr>emotion = ''fearful'', confidence = 1 / 2,
            scores = [(''angry'', 0), (''calm'', 0), (''disgust'', 0), (''fearful'', 1 / 2),
                      (''happy'', 0), (''neutral'', 1 / 2), (''sad'', 0), (''surprised'', 0)]\<rparr>"
proof -
  let ?f = "\<lparr>energy = 1 / 4, zero_crossing_rate = 1 / 5, pitch_mean = 0, pitch_std = 0\<rparr>"
  have rs: "rule_scores model_emotions ?f
      = [(''angry'', 0), (''calm'', 0), (''disgust'', 0), (''fearful'', 2 / 5),
         (''happy'', 0), (''neutral'', 2 / 5), (''sad'', 0), (''surprised'', 0)]"
    by (simp add: rule_scores_def init_model)
  have ns: "normalize_scores (rule_scores model_emotions ?f)
      = [(''angry'', 0), (''calm'', 0), (''disgust'', 0), (''fearful'', 1 / 2),
         (''happy'', 0), (''neutral'', 1 / 2), (''sad'', 0), (''surprised'', 0)]"
    unfolding rs by (simp add: normalize_scores_def)
  show ?thesis
    unfolding classify_features_def Let_def ns by (simp add: py_round_half)
qed

text \<open>
  C4, as the code has it. For every prediction that the classifier returns, on the model
  path or on the rule-based path, the emotion is the first arg-max label of the scores in
  the label order of the detector, and the confidence is the score of that label rounded
  to four decimals. The label order is the canonical one, neutral, happy, sad, angry,
  fearful, surprised, for a detector without a model, and the eight labels of the model,
  angry, calm, disgust, fearful, happy, neutral, sad, surprised, for a detector with one,
  also when its inference fails and the rules take over.
\<close>

theorem prediction_argmax_spec:
  assumes "predict_emotion (init_detector loaded) lib audio sr = Inr p"
  shows "argmax_prediction (emotions (init_detector loaded)) p
    \<and> emotions (init_detector loaded)
        = (case loaded of Inl e \<Rightarrow> fallback_emotions | Inr infer \<Rightarrow> model_emotions)"
proof (cases loaded)
  case (Inl e)
  then have d: "init_detector loaded = \<lparr>model = None, emotions = fallback_emotions\<rparr>"
    by (simp add: init_detector_def)
  from assms have "predict_with_features fallback_emotions lib audio sr = Inr p"
    unfolding d predict_emotion_def by simp
  then have "argmax_prediction fallback_emotions p"
    using feature_branch[of fallback_emotions lib audio sr p] by blast
  with Inl show ?thesis unfolding d by simp
next
  case (Inr infer)
  then have d: "init_detector loaded = \<lparr>model = Some infer, emotions = model_emotions\<rparr>"
    by (simp add: init_detector_def)
  from assms have "predict_with_model model_emotions lib infer audio sr = Inr p"
    unfolding d predict_emotion_def by simp
  then have "argmax_prediction model_emotions p"
    using model_path[of model_emotions lib infer audio sr p] by blast
  with Inr show ?thesis unfolding d by simp
qed

theorem prediction_argmax_spec_witness:
  "predict_emotion (init_detector (Inr sample_model)) quiet_lib [1 / 2] 16000
     = Inr \<lparr>emotion = ''disgust'', confidence = 3 / 5,
            scores = [(''angry'', 1 / 20), (''calm'', 1 / 20), (''disgust'', 3 / 5),
                      (''fearful'', 1 / 20), (''happy'', 1 / 20), (''neutral'', 1 / 10),
                      (''sad'', 1 / 20), (''surprised'', 1 / 20)]\<rparr>
   \<and> argmax_prediction (emotions (init_detector (Inr sample_model)))
        \<lparr>emotion = ''disgust'', confidence = 3 / 5,
         scores = [(''angry'', 1 / 20), (''calm'', 1 / 20), (''disgust'', 3 / 5),
                   (''fearful'', 1 / 20), (''happy'', 1 / 20), (''neutral'', 1 / 10),
                   (''sad'', 1 / 20), (''surprised'', 1 / 20)]\<rparr>
   \<and> emotions (init_detector (Inr sample_model)) = model_emotions"
proof -
  have am: "np_argmax [1 / 20, 1 / 20, 3 / 5, 1 / 20, 1 / 20, 1 / 10, 1 / 20, 1 / 20 :: real]
              = Some 2"
    by (simp add: np_argmax_def upt_rec)
  have dc: "dict_of (zip model_emotions
                [1 / 20, 1 / 20, 3 / 5, 1 / 20, 1 / 20, 1 / 10, 1 / 20, 1 / 20 :: real])
     = [(''angry'', 1 / 20), (''calm'', 1 / 20), (''disgust'', 3 / 5),
        (''fearful'', 1 / 20), (''happy'', 1 / 20), (''neutral'', 1 / 10),
        (''sad'', 1 / 20), (''surprised'', 1 / 20)]"
    by (simp add: dict_of_def model_emotions_def)
  have h: "predict_emotion (init_detector (Inr sample_model)) quiet_lib [1 / 2] 16000
     = Inr \<lparr>emotion = ''disgust'', confidence = 3 / 5,
            scores = [(''angry'', 1 / 20), (''calm'', 1 / 20), (''disgust'', 3 / 5),
                      (''fearful'', 1 / 20), (''happy'', 1 / 20), (''neutral'', 1 / 10),
                      (''sad'', 1 / 20), (''surprised'', 1 / 20)]\<rparr>"
    by (simp add: predict_emotion_def init_detector_def predict_with_model_def
          sample_model_def am dc py_round_3_5) (simp add: model_emotions_def)
  note main = prediction_argmax_spec[OF h]
  from main have e: "emotions (init_detector (Inr sample_model)) = model_emotions"
    by (simp only: sum.case)
  from main h e show ?thesis by blast
qed

text \<open>
  The claim as worded fails twice. The example of the specification is labelled angry
  with the score 4/7 and the confidence 0.5714. A detector whose model raises at
  inference scores fearful and neutral alike for a chunk of medium energy with a
  zero-crossing rate above 0.1, and answers fearful, which stands before neutral among the
  model's labels and behind it in the canonical order.
\<close>

theorem prediction_argmax_counterexample:
  "classify_features fallback_emotions angry_features
     = Inr \<lparr>emotion = ''angry'', confidence = 5714 / 10000,
            scores = [(''neutral'', 0), (''happy'', 0), (''sad'', 0), (''angry'', 4 / 7),
                      (''fearful'', 0), (''surprised'', 3 / 7)]\<rparr>
   \<and> (5714 / 10000 :: real) \<noteq> 4 / 7
   \<and> predict_emotion (init_detector (Inr failing_model)) noisy_lib [1 / 2] 16000
     = Inr \<lparr>emotion = ''fearful'', confidence = 1 / 2,
            scores = [(''angry'', 0), (''calm'', 0), (''disgust'', 0), (''fearful'', 1 / 2),
                      (''happy'', 0), (''neutral'', 1 / 2), (''sad'', 0), (''surprised'', 0)]\<rparr>"
proof -
  have a: "classify_features fallback_emotions angry_features
     = Inr \<lparr>emotion = ''angry'', confidence = 5714 / 10000,
            scores = [(''neutral'', 0), (''happy'', 0), (''sad'', 0), (''angry'', 4 / 7),
                      (''fearful'', 0), (''surprised'', 3 / 7)]\<rparr>"
    using example_classified[of angry_features]
    by (simp add: angry_features_def py_round_4_7)
  have b: "predict_emotion (init_detector (Inr failing_model)) noisy_lib [1 / 2] 16000
     = Inr \<lparr>emotion = ''fearful'', confidence = 1 / 2,
            scores = [(''angry'', 0), (''calm'', 0), (''disgust'', 0), (''fearful'', 1 / 2),
                      (''happy'', 0), (''neutral'', 1 / 2), (''sad'', 0), (''surprised'', 0)]\<rparr>"
    by (simp add: predict_emotion_def init_detector_def predict_with_model_def
          failing_model_def predict_with_features_def tie_features tie_classified)
  from a b show ?thesis by simp
qed

end
